(* ===== verification/Prelude.thy ===== *)
theory Prelude
  imports Main "HOL-Library.Multiset" "HOL-Library.List_Lexorder" "HOL-Library.Sublist"
begin

text \<open>
  Shared vocabulary of the Mastermind development: the named collections that the
  component theories fill, and generic facts on lists that the components share
  (counting with \<open>count_list\<close>, position-wise comparison through \<open>zip\<close>, and the
  multiset view of a list used by the reference scoring function).
\<close>

named_theorems model_defs
  "definitions of the model unfolded to evaluate it on concrete inputs"

named_theorems state_inv
  "one-step preservation facts of the solver state invariant"

section \<open>Counting the \<open>True\<close>s of a list of booleans\<close>

text \<open>Python's \<open>[p(x) for x in xs].count(True)\<close> is \<open>count_list (map p xs) True\<close>.\<close>

lemma count_list_map_True [simp]:
  "count_list (map P xs) True = length (filter P xs)"
  by (induction xs) auto

lemma length_filter_le_length [intro]:
  "length (filter P xs) \<le> length xs"
  by (rule length_filter_le)

lemma length_filter_mono:
  "(\<And>x. x \<in> set xs \<Longrightarrow> P x \<Longrightarrow> Q x) \<Longrightarrow> length (filter P xs) \<le> length (filter Q xs)"
  by (induction xs) auto

section \<open>Position-wise agreement of two lists\<close>

text \<open>The positions where two lists agree, read through \<open>zip\<close> as Python's \<open>zip\<close> does.\<close>

definition agree_count :: "'a list \<Rightarrow> 'a list \<Rightarrow> nat" where
  "agree_count xs ys = length (filter (\<lambda>(x, y). x = y) (zip xs ys))"

lemma agree_count_Nil [simp]:
  "agree_count [] ys = 0" "agree_count xs [] = 0"
  by (simp_all add: agree_count_def)

lemma agree_count_Cons_Cons [simp]:
  "agree_count (x # xs) (y # ys) = (if x = y then 1 else 0) + agree_count xs ys"
  by (simp add: agree_count_def)

lemma agree_count_le_length: "agree_count xs ys \<le> min (length xs) (length ys)"
  by (induction xs ys rule: list_induct2') auto

lemma agree_count_commute: "agree_count xs ys = agree_count ys xs"
  by (induction xs ys rule: list_induct2') auto

lemma agree_count_self [simp]: "agree_count xs xs = length xs"
  by (induction xs) auto

lemma agree_count_full:
  "length xs = length ys \<Longrightarrow> agree_count xs ys = length xs \<longleftrightarrow> xs = ys"
proof (induction xs ys rule: list_induct2)
  case Nil
  then show ?case by simp
next
  case (Cons x xs y ys)
  have "agree_count xs ys \<le> length xs"
    using agree_count_le_length [of xs ys] by simp
  with Cons show ?case by auto
qed

text \<open>Every agreeing position of \<open>xs\<close> holds an element of \<open>ys\<close>.\<close>

lemma agree_count_le_members:
  "agree_count xs ys \<le> length (filter (\<lambda>x. x \<in> set ys) xs)"
proof (induction xs ys rule: list_induct2')
  case (4 x xs y ys)
  have "length (filter (\<lambda>z. z \<in> set ys) xs) \<le> length (filter (\<lambda>z. z \<in> set (y # ys)) xs)"
    by (rule length_filter_mono) auto
  with "4.IH" show ?case by auto
qed simp_all

section \<open>Members of a distinct list\<close>

text \<open>
  In a list without repetitions, the number of elements that lie in a set is the size
  of the intersection: the fact behind the symmetry of the score on distinct codes.
\<close>

lemma distinct_length_filter_mem:
  "distinct xs \<Longrightarrow> length (filter (\<lambda>x. x \<in> A) xs) = card (set xs \<inter> A)"
proof -
  assume d: "distinct xs"
  then have "distinct (filter (\<lambda>x. x \<in> A) xs)" by simp
  then have "length (filter (\<lambda>x. x \<in> A) xs) = card (set (filter (\<lambda>x. x \<in> A) xs))"
    by (simp only: distinct_card)
  also have "set (filter (\<lambda>x. x \<in> A) xs) = set xs \<inter> A" by auto
  finally show ?thesis .
qed

lemma distinct_count_list:
  "distinct xs \<Longrightarrow> count_list xs x = (if x \<in> set xs then 1 else 0)"
  by (induction xs) auto

lemma distinct_concat_map_Cons:
  "distinct xs \<Longrightarrow> (\<And>x. x \<in> set xs \<Longrightarrow> distinct (g x)) \<Longrightarrow>
   distinct (concat (map (\<lambda>x. map ((#) x) (g x)) xs))"
  by (induction xs) (auto simp: distinct_map)

text \<open>
  Blocks of lists with a common head, laid out in increasing order of the heads, form a
  strictly increasing list in the lexicographic order of \<open>HOL-Library.List_Lexorder\<close>.
\<close>

lemma sorted_wrt_concat_map_Cons:
  fixes xs :: "'a::linorder list"
  shows "sorted_wrt (<) xs \<Longrightarrow> (\<And>x. x \<in> set xs \<Longrightarrow> sorted_wrt (<) (g x)) \<Longrightarrow>
         sorted_wrt (<) (concat (map (\<lambda>x. map ((#) x) (g x)) xs))"
  by (induction xs) (auto simp: sorted_wrt_append sorted_wrt_map)

text \<open>A subsequence of a list without repetitions has none.\<close>

lemma subseq_distinct: "subseq xs ys \<Longrightarrow> distinct ys \<Longrightarrow> distinct xs"
  by (induction rule: list_emb.induct) (auto dest: list_emb_set)

lemma in_set_enumerate_snd: "(i, x) \<in> set (enumerate n xs) \<Longrightarrow> x \<in> set xs"
  by (auto simp: enumerate_eq_zip elim: in_set_zipE)

lemma length_filter_count_list:
  "length (filter P xs) = (\<Sum>c\<in>(UNIV :: 'a :: finite set). if P c then count_list xs c else 0)"
proof (induction xs)
  case Nil
  then show ?case by simp
next
  case (Cons x xs)
  have "(\<Sum>c\<in>(UNIV :: 'a set). if P c then count_list (x # xs) c else 0) =
        (\<Sum>c\<in>UNIV. (if P c then count_list xs c else 0) + (if c = x then (if P x then 1 else 0) else 0))"
    by (rule sum.cong) auto
  also have "\<dots> = (\<Sum>c\<in>UNIV. if P c then count_list xs c else 0) + (if P x then 1 else 0)"
    by (simp add: sum.distrib)
  finally show ?case
    using Cons by simp
qed

lemma agree_count_take: "agree_count xs ys = agree_count xs (take (length xs) ys)"
proof (induction xs arbitrary: ys)
  case Nil
  then show ?case by simp
next
  case (Cons x xs ys)
  then show ?case by (cases ys) simp_all
qed

end
