(* ===== verification/Data_Model.thy ===== *)
theory Data_Model
  imports Prelude
begin

text \<open>
  The data model of \<open>src/mastermind.py\<close>, lines 8--14: the two constants, the
  enumeration \<open>Colors\<close> with its iteration order, the named tuple \<open>Score\<close> and the
  type aliases \<open>Code\<close> and \<open>Clue\<close>. The colours are ordered by their position in the
  enumeration, which is the order in which Python iterates the class; the instance of
  \<open>linorder\<close> lets the library's lexicographic order on lists speak about the order
  in which codes are enumerated.
\<close>

definition CODE_LEN :: nat where
  "CODE_LEN = 4"

definition MAX_TRIES :: nat where
  "MAX_TRIES = 12"

datatype Colors = RED | GREEN | BLUE | YELLOW | WHITE | GREY | PINK | CYAN

text \<open>\<open>list(Colors)\<close> and \<open>for c in Colors\<close>: the members in definition order.\<close>

definition Colors_enum :: "Colors list" where
  "Colors_enum = [RED, GREEN, BLUE, YELLOW, WHITE, GREY, PINK, CYAN]"

text \<open>\<open>Colors(n).value\<close>: \<open>Enum(\<dots>, "RED GREEN \<dots>")\<close> numbers the members from 1.\<close>

fun color_value :: "Colors \<Rightarrow> nat" where
  "color_value RED = 1"
| "color_value GREEN = 2"
| "color_value BLUE = 3"
| "color_value YELLOW = 4"
| "color_value WHITE = 5"
| "color_value GREY = 6"
| "color_value PINK = 7"
| "color_value CYAN = 8"

text \<open>\<open>Score = namedtuple("Score", "num_correct num_almost_correct")\<close>.\<close>

datatype Score = Score (num_correct: nat) (num_almost_correct: int)

type_synonym Code = "Colors list"
type_synonym Clue = "Code \<times> Score"

declare CODE_LEN_def [model_defs] MAX_TRIES_def [model_defs] Colors_enum_def [model_defs]

lemma color_value_inj: "color_value a = color_value b \<longleftrightarrow> a = b"
  by (cases a; cases b) simp_all

instantiation Colors :: linorder
begin

definition less_eq_Colors :: "Colors \<Rightarrow> Colors \<Rightarrow> bool" where
  "less_eq_Colors a b \<longleftrightarrow> color_value a \<le> color_value b"

definition less_Colors :: "Colors \<Rightarrow> Colors \<Rightarrow> bool" where
  "less_Colors a b \<longleftrightarrow> color_value a < color_value b"

instance
proof
  fix a b c :: Colors
  show "a < b \<longleftrightarrow> a \<le> b \<and> \<not> b \<le> a"
    by (auto simp: less_eq_Colors_def less_Colors_def)
  show "a \<le> a" by (simp add: less_eq_Colors_def)
  show "a \<le> b \<Longrightarrow> b \<le> c \<Longrightarrow> a \<le> c" by (simp add: less_eq_Colors_def)
  show "a \<le> b \<Longrightarrow> b \<le> a \<Longrightarrow> a = b"
    by (simp add: less_eq_Colors_def flip: color_value_inj)
  show "a \<le> b \<or> b \<le> a" by (auto simp: less_eq_Colors_def)
qed

end

lemma set_Colors_enum [simp]: "set Colors_enum = UNIV"
proof -
  have "c \<in> set Colors_enum" for c
    by (cases c) (simp_all add: Colors_enum_def)
  then show ?thesis by blast
qed

instance Colors :: finite
proof
  show "finite (UNIV :: Colors set)"
    by (simp flip: set_Colors_enum)
qed

lemma distinct_Colors_enum [simp]: "distinct Colors_enum"
  by (simp add: Colors_enum_def)

lemma length_Colors_enum [simp]: "length Colors_enum = 8"
  by (simp add: Colors_enum_def)

lemma sorted_Colors_enum: "sorted_wrt (<) Colors_enum"
  by (simp add: Colors_enum_def less_Colors_def)

end
