(* ===== verification/Scoring.thy ===== *)
theory Scoring
  imports Data_Model
begin

text \<open>
  The scoring function \<open>score_guess\<close> of \<open>src/mastermind.py\<close>, lines 53--56, and the
  classic multiplicity-aware Mastermind score (per-colour minimum counts) that the spec
  names as the reference. The lemmas give the score position by position, bound both
  components, show the score of a code against itself and the symmetry of the score on
  codes without repeated colours, and show that \<open>score_guess\<close> computes the classic
  score whenever the guess repeats no colour. On guesses with repeated colours the two
  differ, which the concrete lemmas at the end exhibit.
\<close>

section \<open>The scoring function\<close>

definition score_guess :: "Code \<Rightarrow> Code \<Rightarrow> Score" where
  "score_guess guess answer =
     (let num_correct_colors_in_correct_loc =
            count_list (map (\<lambda>(g, a). g = a) (zip guess answer)) True;
          num_correct_colors_in_wrong_loc =
            int (count_list (map (\<lambda>g. g \<in> set answer) guess) True)
              - int num_correct_colors_in_correct_loc
      in Score num_correct_colors_in_correct_loc num_correct_colors_in_wrong_loc)"

text \<open>
  The reference score: exact matches, and per colour the smaller of the two counts,
  summed over all colours, minus the exact matches.
\<close>

definition common_colors :: "Code \<Rightarrow> Code \<Rightarrow> nat" where
  "common_colors guess answer =
     sum_list (map (\<lambda>c. min (count_list guess c) (count_list answer c)) Colors_enum)"

definition mastermind_score :: "Code \<Rightarrow> Code \<Rightarrow> Score" where
  "mastermind_score guess answer =
     Score (agree_count guess answer)
           (int (common_colors guess answer) - int (agree_count guess answer))"

declare score_guess_def [model_defs] common_colors_def [model_defs]
  mastermind_score_def [model_defs]

section \<open>The two components\<close>

text \<open>The colours of the guess that occur somewhere in the answer.\<close>

abbreviation present_count :: "Code \<Rightarrow> Code \<Rightarrow> nat" where
  "present_count guess answer \<equiv> length (filter (\<lambda>g. g \<in> set answer) guess)"

lemma score_guess_components:
  "num_correct (score_guess guess answer) = agree_count guess answer"
  "num_almost_correct (score_guess guess answer) =
     int (present_count guess answer) - int (agree_count guess answer)"
  by (simp_all add: score_guess_def agree_count_def Let_def)

lemma score_guess_Score:
  "score_guess guess answer =
     Score (agree_count guess answer)
           (int (present_count guess answer) - int (agree_count guess answer))"
  by (simp add: score_guess_def agree_count_def Let_def)

lemma score_guess_range:
  "0 \<le> num_almost_correct (score_guess guess answer) \<and>
   int (num_correct (score_guess guess answer)) + num_almost_correct (score_guess guess answer)
     \<le> int (length guess)"
  using agree_count_le_members [of guess answer] length_filter_le_length [of _ guess]
  by (simp add: score_guess_components)

lemma agree_count_nth:
  "agree_count xs ys = card {i. i < length xs \<and> i < length ys \<and> xs ! i = ys ! i}"
proof -
  have "agree_count xs ys =
          card {i. i < length (zip xs ys) \<and> (\<lambda>(x, y). x = y) (zip xs ys ! i)}"
    by (simp add: agree_count_def length_filter_conv_card)
  also have "{i. i < length (zip xs ys) \<and> (\<lambda>(x, y). x = y) (zip xs ys ! i)} =
             {i. i < length xs \<and> i < length ys \<and> xs ! i = ys ! i}"
    by auto
  finally show ?thesis .
qed

text \<open>C13: the exact-match count is the number of positions where guess and answer agree.\<close>

theorem score_guess_num_correct:
  "num_correct (score_guess guess answer) =
     card {i. i < length guess \<and> i < length answer \<and> guess ! i = answer ! i}"
  by (simp add: score_guess_components agree_count_nth)

text \<open>
  C14: both components are bounded: the colour-only count is never negative, and the two
  counts together are the number of colours of the guess present in the answer, at most
  the length of the guess.
\<close>

theorem score_guess_bounds:
  "num_correct (score_guess guess answer) \<le> length guess \<and>
   0 \<le> num_almost_correct (score_guess guess answer) \<and>
   int (num_correct (score_guess guess answer)) + num_almost_correct (score_guess guess answer)
     = int (present_count guess answer) \<and>
   present_count guess answer \<le> length guess"
proof -
  have "agree_count guess answer \<le> present_count guess answer"
    by (rule agree_count_le_members)
  moreover have "agree_count guess answer \<le> length guess"
    using agree_count_le_length [of guess answer] by simp
  ultimately show ?thesis
    by (simp add: score_guess_components)
qed

text \<open>C15: a code scored against itself is all exact matches and no colour-only match.\<close>

theorem score_guess_self: "score_guess code code = Score (length code) 0"
proof -
  have "present_count code code = length code" by simp
  then show ?thesis by (simp add: score_guess_Score)
qed

text \<open>
  All positions match exactly when, and only when, guess and answer are the same code.
\<close>

lemma score_guess_full_match:
  "length guess = length answer \<Longrightarrow>
   num_correct (score_guess guess answer) = length answer \<longleftrightarrow> guess = answer"
  using agree_count_full [of guess answer] by (simp add: score_guess_components)

lemma num_correct_score_guess_self [simp]:
  "num_correct (score_guess code code) = length code"
  by (simp add: score_guess_components)

text \<open>C22: codes with no colour in common score nothing.\<close>

theorem score_guess_disjoint:
  "set guess \<inter> set answer = {} \<Longrightarrow> score_guess guess answer = Score 0 0"
proof -
  assume disj: "set guess \<inter> set answer = {}"
  then have none: "present_count guess answer = 0"
    by (auto simp: filter_empty_conv)
  then have "agree_count guess answer = 0"
    using agree_count_le_members [of guess answer] by simp
  with none show ?thesis by (simp add: score_guess_Score)
qed

theorem score_guess_disjoint_witness:
  "set [RED, GREEN, BLUE, YELLOW] \<inter> set [WHITE, GREY, PINK, CYAN] = {} \<and>
   score_guess [RED, GREEN, BLUE, YELLOW] [WHITE, GREY, PINK, CYAN] = Score 0 0"
  using score_guess_disjoint [of "[RED, GREEN, BLUE, YELLOW]" "[WHITE, GREY, PINK, CYAN]"]
  by simp

section \<open>Codes without repeated colours\<close>

lemma common_colors_sum:
  "common_colors guess answer = (\<Sum>c\<in>UNIV. min (count_list guess c) (count_list answer c))"
  by (simp add: common_colors_def sum_list_distinct_conv_sum_set)

lemma common_colors_distinct:
  assumes "distinct guess"
  shows "common_colors guess answer = card (set guess \<inter> set answer)"
proof -
  have "common_colors guess answer =
          (\<Sum>c\<in>UNIV. min (count_list guess c) (count_list answer c))"
    by (rule common_colors_sum)
  also have "\<dots> = (\<Sum>c\<in>UNIV. if c \<in> set guess \<inter> set answer then 1 else 0)"
  proof (rule sum.cong)
    fix c
    show "min (count_list guess c) (count_list answer c) =
          (if c \<in> set guess \<inter> set answer then 1 else 0)"
      using assms count_list_0_iff [of answer c] by (auto simp: distinct_count_list)
  qed simp
  also have "\<dots> = card (set guess \<inter> set answer)"
    by (simp add: sum.If_cases Int_def)
  finally show ?thesis .
qed

lemma present_count_distinct:
  "distinct guess \<Longrightarrow> present_count guess answer = card (set guess \<inter> set answer)"
  by (rule distinct_length_filter_mem)

lemma score_guess_eq_mastermind_score:
  "distinct guess \<Longrightarrow> score_guess guess answer = mastermind_score guess answer"
  by (simp add: score_guess_Score mastermind_score_def common_colors_distinct
      present_count_distinct)

text \<open>
  C11: when the guess repeats no colour, counting the guess colours present in the answer is
  the per-colour minimum count: \<open>score_guess\<close> computes the classic Mastermind score.
\<close>

theorem score_guess_refines_mastermind_score:
  "distinct guess \<Longrightarrow> score_guess guess answer = mastermind_score guess answer"
  by (rule score_guess_eq_mastermind_score)

theorem score_guess_refines_mastermind_score_witness:
  "distinct [RED, GREEN, BLUE, YELLOW] \<and>
   score_guess [RED, GREEN, BLUE, YELLOW] [RED, RED, GREEN, GREEN] =
     mastermind_score [RED, GREEN, BLUE, YELLOW] [RED, RED, GREEN, GREEN]"
  using score_guess_refines_mastermind_score [of "[RED, GREEN, BLUE, YELLOW]" "[RED, RED, GREEN, GREEN]"]
  by simp

lemma score_guess_commute:
  "distinct guess \<Longrightarrow> distinct answer \<Longrightarrow> score_guess guess answer = score_guess answer guess"
  by (simp add: score_guess_Score present_count_distinct agree_count_commute Int_commute)

text \<open>C12: between codes without repeated colours the score is symmetric.\<close>

theorem score_guess_symmetric:
  "distinct guess \<Longrightarrow> distinct answer \<Longrightarrow> score_guess guess answer = score_guess answer guess"
  by (rule score_guess_commute)

theorem score_guess_symmetric_witness:
  "distinct [RED, GREEN, BLUE, YELLOW] \<and> distinct [YELLOW, RED, PINK, CYAN] \<and>
   score_guess [RED, GREEN, BLUE, YELLOW] [YELLOW, RED, PINK, CYAN] =
     score_guess [YELLOW, RED, PINK, CYAN] [RED, GREEN, BLUE, YELLOW]"
  using score_guess_symmetric [of "[RED, GREEN, BLUE, YELLOW]" "[YELLOW, RED, PINK, CYAN]"]
  by simp

section \<open>Guesses with repeated colours\<close>

text \<open>
  C20: \<open>score_guess\<close> computes the classic score exactly when no colour of the answer
  occurs more often in the guess than in the answer. Otherwise every extra copy in the
  guess is counted as a colour-only match, which the classic score does not do.
\<close>

theorem score_guess_classic_iff:
  "score_guess guess answer = mastermind_score guess answer \<longleftrightarrow>
   (\<forall>c \<in> set answer. count_list guess c \<le> count_list answer c)"
proof -
  define f where "f c = min (count_list guess c) (count_list answer c)" for c
  define g where "g c = (if c \<in> set answer then count_list guess c else 0)" for c
  have le: "f c \<le> g c" for c
    using count_list_0_iff [of answer c] by (auto simp: f_def g_def)
  have "score_guess guess answer = mastermind_score guess answer \<longleftrightarrow>
        present_count guess answer = common_colors guess answer"
    by (simp add: score_guess_Score mastermind_score_def)
  also have "\<dots> \<longleftrightarrow> sum g UNIV = sum f UNIV"
    by (simp add: common_colors_sum length_filter_count_list f_def g_def)
  also have "\<dots> \<longleftrightarrow> (\<forall>c. f c = g c)"
  proof
    assume eq: "sum g UNIV = sum f UNIV"
    show "\<forall>c. f c = g c"
    proof (rule ccontr)
      assume "\<not> (\<forall>c. f c = g c)"
      then obtain c where "f c < g c" using le by (metis le_neq_implies_less)
      then have "sum f UNIV < sum g UNIV"
        using le by (intro sum_strict_mono_ex1) auto
      with eq show False by simp
    qed
  qed simp
  also have "\<dots> \<longleftrightarrow> (\<forall>c \<in> set answer. count_list guess c \<le> count_list answer c)"
    using count_list_0_iff [of answer] by (auto simp: f_def g_def min_def)
  finally show ?thesis .
qed

theorem score_guess_classic_iff_witness:
  "score_guess [RED, RED, RED, RED] [RED, GREEN, BLUE, YELLOW] \<noteq>
     mastermind_score [RED, RED, RED, RED] [RED, GREEN, BLUE, YELLOW] \<and>
   count_list [RED, RED, RED, RED] RED = 4 \<and> count_list [RED, GREEN, BLUE, YELLOW] RED = 1"
  using score_guess_classic_iff [of "[RED, RED, RED, RED]" "[RED, GREEN, BLUE, YELLOW]"]
  by auto

end
