(* ===== verification/Clues.thy ===== *)
theory Clues
  imports Scoring
begin

text \<open>
  The clue-consistency filter \<open>solution_matches_clues\<close> of \<open>src/mastermind.py\<close>,
  lines 63--67: a loop over the clues that returns \<open>False\<close> at the first clue whose
  recorded score differs from the candidate's score against the clue's code. The lemmas
  show that the early-return loop decides the universally quantified condition, how it
  splits over a history that grows at its end, and when a code consistent with a history
  stays consistent with it.
\<close>

fun solution_matches_clues :: "Code \<Rightarrow> Clue list \<Rightarrow> bool" where
  "solution_matches_clues guess [] = True"
| "solution_matches_clues guess ((clue, score) # clues) =
     (if score \<noteq> score_guess guess clue then False
      else solution_matches_clues guess clues)"

text \<open>
  A candidate that reproduces every clue: the condition the filter decides, stated
  without the loop.
\<close>

definition consistent_with :: "Code \<Rightarrow> Clue list \<Rightarrow> bool" where
  "consistent_with guess clues \<longleftrightarrow> list_all (\<lambda>(clue, score). score_guess guess clue = score) clues"

lemma solution_matches_clues_consistent_with:
  "solution_matches_clues guess clues = consistent_with guess clues"
  by (induction guess clues rule: solution_matches_clues.induct)
     (auto simp: consistent_with_def)

lemma solution_matches_clues_append [simp]:
  "solution_matches_clues guess (clues @ more) \<longleftrightarrow>
   solution_matches_clues guess clues \<and> solution_matches_clues guess more"
  by (simp add: solution_matches_clues_consistent_with consistent_with_def)

lemma solution_matches_clues_single [simp]:
  "solution_matches_clues guess [(clue, score)] \<longleftrightarrow> score_guess guess clue = score"
  by auto

text \<open>
  C16: the early-return loop decides whether the candidate reproduces the recorded score of
  every clue.
\<close>

theorem solution_matches_clues_iff:
  "solution_matches_clues guess clues \<longleftrightarrow>
   (\<forall>(clue, score) \<in> set clues. score_guess guess clue = score)"
  by (simp add: solution_matches_clues_consistent_with consistent_with_def list_all_iff)

theorem solution_matches_clues_iff_witness:
  "solution_matches_clues [RED, BLUE, GREEN, YELLOW]
     [([RED, GREEN, BLUE, YELLOW], Score 2 2), ([WHITE, GREY, PINK, CYAN], Score 0 0)] \<and>
   \<not> solution_matches_clues [RED, BLUE, GREEN, YELLOW]
     [([RED, GREEN, BLUE, YELLOW], Score 2 2), ([WHITE, GREY, PINK, CYAN], Score 1 0)]"
proof
  show "solution_matches_clues [RED, BLUE, GREEN, YELLOW]
     [([RED, GREEN, BLUE, YELLOW], Score 2 2), ([WHITE, GREY, PINK, CYAN], Score 0 0)]"
    by (subst solution_matches_clues_iff) (simp add: score_guess_def)
  show "\<not> solution_matches_clues [RED, BLUE, GREEN, YELLOW]
     [([RED, GREEN, BLUE, YELLOW], Score 2 2), ([WHITE, GREY, PINK, CYAN], Score 1 0)]"
    by (subst solution_matches_clues_iff) (simp add: score_guess_def)
qed

end
