(* ===== verification/Enumeration.thy ===== *)
theory Enumeration
  imports Data_Model
begin

text \<open>
  The candidate enumerator \<open>all_possible_solutions\<close> of \<open>src/mastermind.py\<close>,
  lines 59--60, which returns \<open>itertools.permutations(Colors, CODE_LEN)\<close>. The
  library function is modelled from its documentation: it picks the elements by
  position, emits the \<open>r\<close>-tuples in lexicographic order of the positions, and emits
  nothing when \<open>r\<close> exceeds the length of the pool. \<open>select\<close> lists the ways to take
  one element out of the pool, in position order, together with what is left.
  The lemmas show that, on a pool without repetitions, the enumeration holds exactly the
  repetition-free tuples of length \<open>r\<close> over the pool, each once, that it has
  \<open>n (n - 1) \<dots> (n - r + 1)\<close> elements, and that it is strictly increasing in the
  lexicographic order of lists when the pool is increasing. For the program's pool this
  gives the 1680 codes of four distinct colours, in the canonical order.
\<close>

section \<open>\<open>itertools.permutations\<close>\<close>

fun select :: "'a list \<Rightarrow> ('a \<times> 'a list) list" where
  "select [] = []"
| "select (x # xs) = (x, xs) # map (\<lambda>(y, ys). (y, x # ys)) (select xs)"

fun permutations :: "'a list \<Rightarrow> nat \<Rightarrow> 'a list list" where
  "permutations pool 0 = [[]]"
| "permutations pool (Suc r) =
     concat (map (\<lambda>(x, rest). map ((#) x) (permutations rest r)) (select pool))"

section \<open>\<open>all_possible_solutions\<close>\<close>

definition all_possible_solutions :: "Code list" where
  "all_possible_solutions = permutations Colors_enum CODE_LEN"

declare all_possible_solutions_def [model_defs]

section \<open>Selecting one element\<close>

text \<open>On a pool without repetitions, selecting \<open>x\<close> leaves \<open>remove1 x pool\<close>.\<close>

lemma select_distinct:
  "distinct xs \<Longrightarrow> select xs = map (\<lambda>x. (x, remove1 x xs)) xs"
proof (induction xs)
  case Nil
  then show ?case by simp
next
  case (Cons x xs)
  then have "\<forall>y \<in> set xs. remove1 y (x # xs) = x # remove1 y xs"
    by auto
  with Cons show ?case by simp
qed

lemma permutations_Suc_distinct:
  "distinct pool \<Longrightarrow>
   permutations pool (Suc r) = concat (map (\<lambda>x. map ((#) x) (permutations (remove1 x pool) r)) pool)"
  by (simp add: select_distinct comp_def)

section \<open>What is enumerated\<close>

lemma permutations_sound:
  "distinct pool \<Longrightarrow> ys \<in> set (permutations pool r) \<Longrightarrow>
   set ys \<subseteq> set pool \<and> distinct ys \<and> length ys = r"
proof (induction r arbitrary: pool ys)
  case 0
  then show ?case by simp
next
  case (Suc r)
  then obtain x zs where x: "x \<in> set pool" and ys: "ys = x # zs"
    and zs: "zs \<in> set (permutations (remove1 x pool) r)"
    by (auto simp del: permutations.simps(2) simp: permutations_Suc_distinct)
  from Suc.prems(1) have "distinct (remove1 x pool)" by simp
  with zs Suc.IH have "set zs \<subseteq> set (remove1 x pool) \<and> distinct zs \<and> length zs = r"
    by blast
  with Suc.prems(1) x ys show ?case
    by (auto dest: subsetD [OF set_remove1_subset])
qed

lemma permutations_complete:
  "distinct pool \<Longrightarrow> set ys \<subseteq> set pool \<Longrightarrow> distinct ys \<Longrightarrow> length ys = r \<Longrightarrow>
   ys \<in> set (permutations pool r)"
proof (induction r arbitrary: pool ys)
  case 0
  then show ?case by simp
next
  case (Suc r)
  from Suc.prems(4) obtain x zs where ys: "ys = x # zs" by (cases ys) simp_all
  with Suc.prems have x: "x \<in> set pool" and "set zs \<subseteq> set (remove1 x pool)"
    by auto
  with Suc.prems ys have "zs \<in> set (permutations (remove1 x pool) r)"
    by (intro Suc.IH) auto
  with x ys Suc.prems(1) show ?case
    by (auto simp del: permutations.simps(2) simp: permutations_Suc_distinct)
qed

lemma set_permutations:
  "distinct pool \<Longrightarrow>
   set (permutations pool r) = {ys. set ys \<subseteq> set pool \<and> distinct ys \<and> length ys = r}"
  by (blast dest: permutations_sound intro: permutations_complete)

lemma distinct_permutations:
  "distinct pool \<Longrightarrow> distinct (permutations pool r)"
proof (induction r arbitrary: pool)
  case 0
  then show ?case by simp
next
  case (Suc r)
  then show ?case
    by (simp del: permutations.simps(2)
        add: permutations_Suc_distinct distinct_concat_map_Cons)
qed

lemma select_length_rest:
  "(x, rest) \<in> set (select pool) \<Longrightarrow> length pool = Suc (length rest)"
  by (induction pool arbitrary: x rest) auto

lemma length_select [simp]: "length (select pool) = length pool"
  by (induction pool) auto

lemma length_permutations:
  "length (permutations pool r) = (\<Prod>i<r. length pool - i)"
proof (induction r arbitrary: pool)
  case 0
  then show ?case by simp
next
  case (Suc r)
  have "length (permutations pool (Suc r)) =
          (\<Sum>p\<leftarrow>select pool. length (permutations (snd p) r))"
    by (simp add: length_concat comp_def case_prod_beta)
  also have "\<dots> = (\<Sum>p\<leftarrow>select pool. \<Prod>i<r. length pool - Suc i)"
    by (rule arg_cong [where f = sum_list], rule map_cong)
       (auto simp: Suc.IH dest!: select_length_rest)
  finally show ?case
    by (simp add: sum_list_triv prod.lessThan_Suc_shift del: prod.lessThan_Suc)
qed

section \<open>The order of the enumeration\<close>

lemma sorted_permutations:
  fixes pool :: "'a::linorder list"
  shows "sorted_wrt (<) pool \<Longrightarrow> sorted_wrt (<) (permutations pool r)"
proof (induction r arbitrary: pool)
  case 0
  then show ?case by simp
next
  case (Suc r)
  then have d: "distinct pool" by (simp add: strict_sorted_iff)
  have "sorted_wrt (<) (remove1 x pool)" for x
    using Suc.prems by (simp add: strict_sorted_iff sorted_remove1)
  then have "sorted_wrt (<) (permutations (remove1 x pool) r)" for x
    by (rule Suc.IH)
  with Suc.prems d show ?case
    by (simp del: permutations.simps(2)
        add: permutations_Suc_distinct sorted_wrt_concat_map_Cons)
qed

section \<open>The candidates of the program\<close>

lemma set_all_possible_solutions:
  "set all_possible_solutions = {c. distinct c \<and> length c = CODE_LEN}"
  by (simp add: all_possible_solutions_def set_permutations)

lemma distinct_all_possible_solutions: "distinct all_possible_solutions"
  by (simp add: all_possible_solutions_def distinct_permutations)

lemma length_all_possible_solutions: "length all_possible_solutions = 1680"
  by (simp add: all_possible_solutions_def length_permutations CODE_LEN_def
      lessThan_nat_numeral)

lemma sorted_all_possible_solutions: "sorted_wrt (<) all_possible_solutions"
  by (simp add: all_possible_solutions_def sorted_permutations sorted_Colors_enum)

text \<open>
  C17: the candidates are the codes of \<open>CODE_LEN\<close> distinct colours, each enumerated once,
  1680 of them.
\<close>

theorem all_possible_solutions_enumerates:
  "set all_possible_solutions = {c. distinct c \<and> length c = CODE_LEN} \<and>
   distinct all_possible_solutions \<and> length all_possible_solutions = 1680"
  by (simp add: set_all_possible_solutions distinct_all_possible_solutions
      length_all_possible_solutions)

text \<open>
  C18: the enumeration order is canonical: the candidates come as the sorted list, in the
  lexicographic order induced by the colours' order of definition, of all codes of
  \<open>CODE_LEN\<close> distinct colours.
\<close>

theorem all_possible_solutions_canonical:
  "all_possible_solutions = sorted_list_of_set {c. distinct c \<and> length c = CODE_LEN}"
proof -
  have "sorted all_possible_solutions"
    using sorted_all_possible_solutions by (simp add: strict_sorted_iff)
  then have "sorted_list_of_set (set all_possible_solutions) = all_possible_solutions"
    by (simp add: sorted_list_of_set_sort_remdups distinct_all_possible_solutions
        distinct_remdups_id sorted_sort_id)
  then show ?thesis by (simp add: set_all_possible_solutions)
qed

end
