(* ===== verification/Solver.thy ===== *)
theory Solver
  imports Clues Enumeration
begin

text \<open>
  The solver loop \<open>solve\<close> of \<open>src/mastermind.py\<close>, lines 70--86. Its local state
  (the clue list and the guess counter) and the lines it prints form the record
  \<open>solver_state\<close>; a printed line keeps the data it renders (\<open>out_line\<close>), the
  colouring done by \<open>format_code\<close> and \<open>format_clue\<close> is not modelled. One iteration
  of the \<open>for\<close> loop up to the \<open>MAX_TRIES\<close> test is \<open>solve_body\<close>, which either
  returns from \<open>solve\<close> (\<open>Return\<close>) or continues (\<open>Next\<close>); \<open>solve_loop\<close> runs
  it over the candidates, tests the clue count after every candidate as line 82 does,
  and prints the failure line on \<open>break\<close> or when the candidates run out.
\<close>

section \<open>State and output\<close>

datatype out_line =
    Game_line nat Code
  | Guess_line nat Code Score
  | Failure_line

record solver_state =
  clues :: "Clue list"
  guess_num :: nat
  printed :: "out_line list"

datatype body_exit = Return Code solver_state | Next solver_state

section \<open>The loop\<close>

definition solve_init :: solver_state where
  "solve_init = \<lparr>clues = [], guess_num = 1, printed = []\<rparr>"

definition report_failure :: "solver_state \<Rightarrow> solver_state" where
  "report_failure st = st\<lparr>printed := printed st @ [Failure_line]\<rparr>"

definition solve_body :: "Code \<Rightarrow> Code \<Rightarrow> solver_state \<Rightarrow> body_exit" where
  "solve_body answer solution st =
     (if solution_matches_clues solution (clues st) then
        (let score = score_guess solution answer;
             st = st\<lparr>printed := printed st @ [Guess_line (guess_num st) solution score]\<rparr>
         in if num_correct score = CODE_LEN then Return solution st
            else Next (st\<lparr>clues := clues st @ [(solution, score)],
                          guess_num := guess_num st + 1\<rparr>))
      else Next st)"

fun solve_loop :: "Code \<Rightarrow> Code list \<Rightarrow> solver_state \<Rightarrow> Code option \<times> solver_state" where
  "solve_loop answer [] st = (None, report_failure st)"
| "solve_loop answer (solution # solutions) st =
     (case solve_body answer solution st of
        Return s st' \<Rightarrow> (Some s, st')
      | Next st' \<Rightarrow>
          if length (clues st') = MAX_TRIES then (None, report_failure st')
          else solve_loop answer solutions st')"

definition solve :: "Code \<Rightarrow> Code option \<times> solver_state" where
  "solve answer = solve_loop answer all_possible_solutions solve_init"

declare solve_init_def [model_defs] report_failure_def [model_defs]
  solve_body_def [model_defs] solve_def [model_defs]

section \<open>The three outcomes of one iteration\<close>

lemma clues_report_failure [simp]: "clues (report_failure st) = clues st"
  by (simp add: report_failure_def)

lemma solve_body_skip:
  "\<not> solution_matches_clues s (clues st) \<Longrightarrow> solve_body answer s st = Next st"
  by (simp add: solve_body_def)

lemma solve_body_found:
  "solution_matches_clues s (clues st) \<Longrightarrow> num_correct (score_guess s answer) = CODE_LEN \<Longrightarrow>
   solve_body answer s st =
     Return s (st\<lparr>printed := printed st @ [Guess_line (guess_num st) s (score_guess s answer)]\<rparr>)"
  by (simp add: solve_body_def Let_def)

lemma solve_body_clue:
  "solution_matches_clues s (clues st) \<Longrightarrow> num_correct (score_guess s answer) \<noteq> CODE_LEN \<Longrightarrow>
   solve_body answer s st =
     Next (st\<lparr>printed := printed st @ [Guess_line (guess_num st) s (score_guess s answer)],
              clues := clues st @ [(s, score_guess s answer)],
              guess_num := guess_num st + 1\<rparr>)"
  by (simp add: solve_body_def Let_def)

lemma solve_body_cases:
  obtains (skip) "\<not> solution_matches_clues s (clues st)" "solve_body answer s st = Next st"
  | (found) "solution_matches_clues s (clues st)" "num_correct (score_guess s answer) = CODE_LEN"
      "solve_body answer s st =
         Return s (st\<lparr>printed := printed st @ [Guess_line (guess_num st) s (score_guess s answer)]\<rparr>)"
  | (clue) "solution_matches_clues s (clues st)" "num_correct (score_guess s answer) \<noteq> CODE_LEN"
      "solve_body answer s st =
         Next (st\<lparr>printed := printed st @ [Guess_line (guess_num st) s (score_guess s answer)],
                  clues := clues st @ [(s, score_guess s answer)],
                  guess_num := guess_num st + 1\<rparr>)"
  using solve_body_skip solve_body_found solve_body_clue by blast

section \<open>The solver invariant\<close>

text \<open>
  Every clue was scored against the hidden answer and was not a full match; every
  promoted guess was consistent with the clues before it; the counter is one more than
  the number of clues; and the printed lines are the numbered guess lines of the clues.
\<close>

definition scored_against :: "Code \<Rightarrow> Clue list \<Rightarrow> bool" where
  "scored_against answer cs \<longleftrightarrow>
     list_all (\<lambda>(c, s). s = score_guess c answer \<and> num_correct s \<noteq> CODE_LEN) cs"

definition consistent_history :: "Clue list \<Rightarrow> bool" where
  "consistent_history cs \<longleftrightarrow>
     list_all (\<lambda>i. solution_matches_clues (fst (cs ! i)) (take i cs)) [0..<length cs]"

definition guess_lines :: "Clue list \<Rightarrow> out_line list" where
  "guess_lines cs = map (\<lambda>(i, c, s). Guess_line i c s) (enumerate 1 cs)"

definition solver_inv :: "Code \<Rightarrow> solver_state \<Rightarrow> bool" where
  "solver_inv answer st \<longleftrightarrow>
     scored_against answer (clues st) \<and> consistent_history (clues st) \<and>
     guess_num st = Suc (length (clues st)) \<and> printed st = guess_lines (clues st)"

lemma scored_against_snoc [simp]:
  "scored_against answer (cs @ [(c, s)]) \<longleftrightarrow>
   scored_against answer cs \<and> s = score_guess c answer \<and> num_correct s \<noteq> CODE_LEN"
  by (simp add: scored_against_def)

lemma consistent_history_snoc [simp]:
  "consistent_history (cs @ [x]) \<longleftrightarrow> consistent_history cs \<and> solution_matches_clues (fst x) cs"
  by (auto simp: consistent_history_def list_all_iff nth_append)

lemma guess_lines_snoc [simp]:
  "guess_lines (cs @ [(c, s)]) = guess_lines cs @ [Guess_line (Suc (length cs)) c s]"
  by (simp add: guess_lines_def enumerate_append_eq)

lemma solver_inv_init [state_inv]: "solver_inv answer solve_init"
  by (simp add: solver_inv_def solve_init_def scored_against_def consistent_history_def
      guess_lines_def)

lemma solve_body_Next_inv [state_inv]:
  assumes "solver_inv answer st" and "solve_body answer s st = Next st'"
  shows "solver_inv answer st'"
  using assms(2)
proof (cases rule: solve_body_cases [of s st answer])
  case clue
  with assms show ?thesis by (auto simp: solver_inv_def)
qed (use assms in auto)

lemma solve_body_Next_clues:
  "solve_body answer s st = Next st' \<Longrightarrow>
   clues st' = clues st \<or> clues st' = clues st @ [(s, score_guess s answer)]"
  by (cases rule: solve_body_cases [of s st answer]) auto

lemma solve_body_Return:
  "solve_body answer s st = Return s' st' \<Longrightarrow>
   s' = s \<and> solution_matches_clues s (clues st) \<and> num_correct (score_guess s answer) = CODE_LEN \<and>
   clues st' = clues st \<and>
   printed st' = printed st @ [Guess_line (guess_num st) s (score_guess s answer)]"
  by (cases rule: solve_body_cases [of s st answer]) auto

section \<open>Runs of the loop\<close>

text \<open>The line printed last: the failure notice, or the guess that matched.\<close>

definition last_line :: "Code \<Rightarrow> Clue list \<Rightarrow> Code option \<Rightarrow> out_line" where
  "last_line answer cs r =
     (case r of None \<Rightarrow> Failure_line
      | Some s \<Rightarrow> Guess_line (Suc (length cs)) s (score_guess s answer))"

text \<open>The codes promoted to guesses, in the order they were tried.\<close>

definition promoted :: "Clue list \<Rightarrow> Code option \<Rightarrow> Code list" where
  "promoted cs r = map fst cs @ (case r of None \<Rightarrow> [] | Some s \<Rightarrow> [s])"

lemma solve_loop_inv:
  "solver_inv answer st \<Longrightarrow> length (clues st) < MAX_TRIES \<Longrightarrow>
   solve_loop answer cands st = (r, st') \<Longrightarrow>
   scored_against answer (clues st') \<and> consistent_history (clues st') \<and>
   length (promoted (clues st') r) \<le> MAX_TRIES \<and>
   printed st' = guess_lines (clues st') @ [last_line answer (clues st') r]"
proof (induction cands arbitrary: st)
  case Nil
  then show ?case
    by (auto simp: solver_inv_def report_failure_def last_line_def promoted_def)
next
  case (Cons s ss)
  show ?case
  proof (cases "solve_body answer s st")
    case (Return s' st'')
    with Cons.prems show ?thesis
      by (auto simp: solver_inv_def last_line_def promoted_def dest!: solve_body_Return)
  next
    case (Next st'')
    have inv: "solver_inv answer st''"
      using Cons.prems(1) Next by (rule solve_body_Next_inv)
    have len: "length (clues st'') \<le> MAX_TRIES"
      using solve_body_Next_clues [OF Next] Cons.prems(2) by auto
    show ?thesis
    proof (cases "length (clues st'') = MAX_TRIES")
      case True
      with Next Cons.prems(3) inv show ?thesis
        by (auto simp: solver_inv_def report_failure_def last_line_def promoted_def)
    next
      case False
      with Next Cons.prems(3) have "solve_loop answer ss st'' = (r, st')" by simp
      with inv len False show ?thesis by (intro Cons.IH) auto
    qed
  qed
qed

lemma solve_loop_promoted:
  "solve_loop answer cands st = (r, st') \<Longrightarrow>
   \<exists>new. clues st' = clues st @ new \<and> subseq (promoted new r) cands"
proof (induction cands arbitrary: st)
  case Nil
  then show ?case by (auto simp: report_failure_def promoted_def)
next
  case (Cons s ss)
  show ?case
  proof (cases "solve_body answer s st")
    case (Return s' st'')
    with Cons.prems show ?thesis
      by (auto simp: promoted_def dest!: solve_body_Return)
  next
    case (Next st'')
    have step: "\<exists>new. clues st' = clues st'' @ new \<and> subseq (promoted new r) ss"
    proof (cases "length (clues st'') = MAX_TRIES")
      case True
      with Next Cons.prems show ?thesis
        by (auto simp: report_failure_def promoted_def)
    next
      case False
      with Next Cons.prems show ?thesis by (intro Cons.IH) simp
    qed
    from solve_body_Next_clues [OF Next] show ?thesis
    proof
      assume "clues st'' = clues st"
      with step show ?thesis by auto
    next
      assume c: "clues st'' = clues st @ [(s, score_guess s answer)]"
      from step obtain new where "clues st' = clues st'' @ new" "subseq (promoted new r) ss"
        by blast
      with c show ?thesis
        by (intro exI [of _ "(s, score_guess s answer) # new"]) (auto simp: promoted_def)
    qed
  qed
qed

lemma solve_loop_found:
  "solver_inv answer st \<Longrightarrow> solve_loop answer cands st = (Some s, st') \<Longrightarrow>
   num_correct (score_guess s answer) = CODE_LEN \<and> solution_matches_clues s (clues st')"
proof (induction cands arbitrary: st)
  case Nil
  then show ?case by simp
next
  case (Cons c cs)
  show ?case
  proof (cases "solve_body answer c st")
    case (Return s' st'')
    with Cons.prems show ?thesis by (auto dest!: solve_body_Return)
  next
    case (Next st'')
    with Cons.prems have "solver_inv answer st''" "solve_loop answer cs st'' = (Some s, st')"
      by (auto intro: solve_body_Next_inv split: if_splits)
    then show ?thesis by (rule Cons.IH)
  qed
qed

section \<open>A whole game\<close>

lemma solve_run:
  assumes "solve answer = (r, st)"
  shows "scored_against answer (clues st) \<and> consistent_history (clues st) \<and>
         length (promoted (clues st) r) \<le> MAX_TRIES \<and>
         printed st = guess_lines (clues st) @ [last_line answer (clues st) r]"
  using solver_inv_init assms
  by (intro solve_loop_inv) (auto simp: solve_def solve_init_def MAX_TRIES_def)

lemma solve_found:
  "solve answer = (Some s, st) \<Longrightarrow>
   num_correct (score_guess s answer) = CODE_LEN \<and> solution_matches_clues s (clues st)"
  using solver_inv_init by (intro solve_loop_found) (auto simp: solve_def)

lemma solve_promoted:
  "solve answer = (r, st) \<Longrightarrow> subseq (promoted (clues st) r) all_possible_solutions"
  using solve_loop_promoted [of answer all_possible_solutions solve_init r st]
  by (auto simp: solve_def solve_init_def)

lemma promoted_candidate:
  "solve answer = (r, st) \<Longrightarrow> c \<in> set (promoted (clues st) r) \<Longrightarrow>
   c \<in> set all_possible_solutions"
  by (auto dest!: solve_promoted dest: list_emb_set)

text \<open>
  C7: a game promotes at most \<open>MAX_TRIES\<close> candidates to guesses, counting the one
  that matched; so at most twelve guess lines are printed per game.
\<close>

theorem solve_at_most_MAX_TRIES_guesses:
  "length (promoted (clues (snd (solve answer))) (fst (solve answer))) \<le> MAX_TRIES"
  using solve_run [of answer "fst (solve answer)" "snd (solve answer)"] by simp

text \<open>
  C9: the transcript of a game: the guesses numbered from 1, each with its score against
  the hidden answer, then one last line, the failure notice or the matching guess with
  the next number; no clue recorded a full match.
\<close>

theorem solve_transcript:
  "case solve answer of (r, st) \<Rightarrow>
     printed st = guess_lines (clues st) @ [last_line answer (clues st) r] \<and>
     (\<forall>(c, s) \<in> set (clues st). s = score_guess c answer \<and> num_correct s \<noteq> CODE_LEN)"
  using solve_run [of answer "fst (solve answer)" "snd (solve answer)"]
  by (auto simp: scored_against_def list_all_iff split: prod.splits)

theorem solve_transcript_witness:
  "printed (snd (solve [RED, GREEN, YELLOW, BLUE])) =
     [Guess_line 1 [RED, GREEN, BLUE, YELLOW] (Score 2 2),
      Guess_line 2 [RED, GREEN, YELLOW, BLUE] (Score 4 0)] \<and>
   score_guess [RED, GREEN, BLUE, YELLOW] [RED, GREEN, YELLOW, BLUE] = Score 2 2"
proof -
  have run: "solve [RED, GREEN, YELLOW, BLUE] =
     (Some [RED, GREEN, YELLOW, BLUE],
      \<lparr>clues = [([RED, GREEN, BLUE, YELLOW], Score 2 2)], guess_num = 2,
       printed = [Guess_line 1 [RED, GREEN, BLUE, YELLOW] (Score 2 2),
                  Guess_line 2 [RED, GREEN, YELLOW, BLUE] (Score 4 0)]\<rparr>)"
    by code_simp
  from solve_transcript [of "[RED, GREEN, YELLOW, BLUE]"] run show ?thesis
    by simp
qed

text \<open>
  C8: every promoted guess, the matching one included, reproduces the scores of all the
  clues recorded before it: the solver only guesses codes that could still be the answer.
\<close>

theorem solve_guesses_consistent:
  "case solve answer of (r, st) \<Rightarrow>
     \<forall>i < length (promoted (clues st) r).
       solution_matches_clues (promoted (clues st) r ! i) (take i (clues st))"
proof (clarsimp split: prod.splits)
  fix r st i
  assume run: "solve answer = (r, st)" and i: "i < length (promoted (clues st) r)"
  have hist: "consistent_history (clues st)"
    using solve_run [OF run] by simp
  show "solution_matches_clues (promoted (clues st) r ! i) (take i (clues st))"
  proof (cases "i < length (clues st)")
    case True
    with hist show ?thesis
      by (simp add: consistent_history_def list_all_iff promoted_def nth_append)
  next
    case False
    with i obtain s where "r = Some s" and "i = length (clues st)"
      by (cases r) (auto simp: promoted_def)
    with solve_found [of answer s st] run show ?thesis
      by (simp add: promoted_def nth_append)
  qed
qed

theorem solve_guesses_consistent_witness:
  "promoted (clues (snd (solve [RED, GREEN, YELLOW, BLUE]))) (fst (solve [RED, GREEN, YELLOW, BLUE]))
     = [[RED, GREEN, BLUE, YELLOW], [RED, GREEN, YELLOW, BLUE]] \<and>
   solution_matches_clues [RED, GREEN, YELLOW, BLUE] [([RED, GREEN, BLUE, YELLOW], Score 2 2)]"
proof -
  have run: "solve [RED, GREEN, YELLOW, BLUE] =
     (Some [RED, GREEN, YELLOW, BLUE],
      \<lparr>clues = [([RED, GREEN, BLUE, YELLOW], Score 2 2)], guess_num = 2,
       printed = [Guess_line 1 [RED, GREEN, BLUE, YELLOW] (Score 2 2),
                  Guess_line 2 [RED, GREEN, YELLOW, BLUE] (Score 4 0)]\<rparr>)"
    by code_simp
  from solve_guesses_consistent [of "[RED, GREEN, YELLOW, BLUE]"] run
  have "solution_matches_clues (promoted [([RED, GREEN, BLUE, YELLOW], Score 2 2)]
          (Some [RED, GREEN, YELLOW, BLUE]) ! 1) (take 1 [([RED, GREEN, BLUE, YELLOW], Score 2 2)])"
    by (simp only: prod.case) (drule spec [of _ 1], simp add: promoted_def)
  with run show ?thesis by (simp add: promoted_def)
qed

text \<open>
  C10: the guesses are promoted in the canonical order of the enumeration, so no code is
  guessed twice in a game.
\<close>

theorem solve_guesses_in_order:
  "case solve answer of (r, st) \<Rightarrow>
     subseq (promoted (clues st) r) all_possible_solutions \<and> distinct (promoted (clues st) r)"
  by (auto split: prod.splits dest: solve_promoted
      intro: subseq_distinct distinct_all_possible_solutions)

end
