(* ===== verification/Driver.thy ===== *)
theory Driver
  imports Solver
begin

text \<open>
  The top-level script of \<open>src/mastermind.py\<close>, lines 89--92, and the unused random
  target selection \<open>create_code\<close>, lines 17--20. The script takes every enumerated
  code in turn as the secret of one game, prints the game number and the secret, and runs
  \<open>solve\<close>; its output is the concatenation of the games' lines. \<open>create_code\<close>
  shuffles the colours with \<open>random.shuffle\<close> and keeps the first \<open>CODE_LEN\<close>; the
  shuffle is a parameter of the model, any function that permutes its argument.
\<close>

definition run_script :: "out_line list" where
  "run_script =
     concat (map (\<lambda>(number, code). Game_line number code # printed (snd (solve code)))
                 (enumerate 1 all_possible_solutions))"

definition create_code :: "(Colors list \<Rightarrow> Colors list) \<Rightarrow> Code" where
  "create_code shuffle = take CODE_LEN (shuffle Colors_enum)"

declare run_script_def [model_defs] create_code_def [model_defs]

section \<open>Random target selection\<close>

text \<open>
  C19: whatever permutation the shuffle produces, \<open>create_code\<close> yields one of the
  enumerated codes, so the randomised mode is covered by the results on
  \<open>all_possible_solutions\<close>.
\<close>

theorem create_code_enumerated:
  assumes "mset (shuffle Colors_enum) = mset Colors_enum"
  shows "create_code shuffle \<in> set all_possible_solutions"
proof -
  have d: "distinct (shuffle Colors_enum)"
    using assms by (metis distinct_Colors_enum mset_eq_imp_distinct_iff)
  have "length (shuffle Colors_enum) = 8"
    using assms by (metis length_Colors_enum size_mset)
  with d show ?thesis
    by (simp add: create_code_def set_all_possible_solutions CODE_LEN_def)
qed

theorem create_code_enumerated_witness:
  "mset (rev Colors_enum) = mset Colors_enum \<and>
   create_code rev \<in> set all_possible_solutions \<and>
   create_code rev = [CYAN, PINK, GREY, WHITE]"
  using create_code_enumerated [of rev]
  by (simp add: create_code_def Colors_enum_def CODE_LEN_def)

end
