(* ===== verification/Solver_Spec.thy ===== *)
theory Solver_Spec
  imports Solver
begin

text \<open>
  The solver as the spec describes it (section 4.4): a state machine with phases
  \<open>RUNNING\<close>, \<open>SOLVED\<close>, \<open>EXHAUSTED\<close> and \<open>DEPLETED\<close>, whose state is the
  candidates still to consider, the clue history and the code found. One rule per
  transition of the spec: skip a candidate that contradicts a clue; promote a consistent
  one and stop on a full match, record it as a clue, or record it and stop when the
  history reaches \<open>MAX_TRIES\<close>; stop when the candidates run out. The consistency test
  is the spec's quantified condition \<open>consistent_with\<close>, not the code's loop. The
  lemmas show the machine deterministic, an invariant of all reachable states by rule
  induction, and that \<open>solve_loop\<close> refines the machine: each run of the code ends
  where a run of the machine from the same history ends.
\<close>

section \<open>The machine\<close>

datatype phase = RUNNING | SOLVED | EXHAUSTED | DEPLETED

record game =
  phase :: phase
  remaining :: "Code list"
  history :: "Clue list"
  found :: "Code option"

inductive game_step :: "Code \<Rightarrow> game \<Rightarrow> game \<Rightarrow> bool" for answer :: Code where
  skip: "phase g = RUNNING \<Longrightarrow> remaining g = c # cs \<Longrightarrow> \<not> consistent_with c (history g) \<Longrightarrow>
         game_step answer g (g\<lparr>remaining := cs\<rparr>)"
| solved: "phase g = RUNNING \<Longrightarrow> remaining g = c # cs \<Longrightarrow> consistent_with c (history g) \<Longrightarrow>
         num_correct (score_guess c answer) = CODE_LEN \<Longrightarrow>
         game_step answer g (g\<lparr>phase := SOLVED, remaining := cs, found := Some c\<rparr>)"
| clue: "phase g = RUNNING \<Longrightarrow> remaining g = c # cs \<Longrightarrow> consistent_with c (history g) \<Longrightarrow>
         num_correct (score_guess c answer) \<noteq> CODE_LEN \<Longrightarrow>
         Suc (length (history g)) < MAX_TRIES \<Longrightarrow>
         game_step answer g
           (g\<lparr>remaining := cs, history := history g @ [(c, score_guess c answer)]\<rparr>)"
| exhausted: "phase g = RUNNING \<Longrightarrow> remaining g = c # cs \<Longrightarrow> consistent_with c (history g) \<Longrightarrow>
         num_correct (score_guess c answer) \<noteq> CODE_LEN \<Longrightarrow>
         Suc (length (history g)) = MAX_TRIES \<Longrightarrow>
         game_step answer g
           (g\<lparr>phase := EXHAUSTED, remaining := cs,
              history := history g @ [(c, score_guess c answer)]\<rparr>)"
| depleted: "phase g = RUNNING \<Longrightarrow> remaining g = [] \<Longrightarrow>
         game_step answer g (g\<lparr>phase := DEPLETED\<rparr>)"

definition game_start :: "Code list \<Rightarrow> Clue list \<Rightarrow> game" where
  "game_start cands hist = \<lparr>phase = RUNNING, remaining = cands, history = hist, found = None\<rparr>"

definition reachable :: "Code \<Rightarrow> Code list \<Rightarrow> game \<Rightarrow> bool" where
  "reachable answer cands g \<longleftrightarrow> (game_step answer)\<^sup>*\<^sup>* (game_start cands []) g"

lemma game_step_running: "game_step answer g g' \<Longrightarrow> phase g = RUNNING"
  by (induction rule: game_step.induct) simp_all

lemma game_step_deterministic:
  "game_step answer g g1 \<Longrightarrow> game_step answer g g2 \<Longrightarrow> g1 = g2"
  by (induction rule: game_step.induct) (auto elim: game_step.cases)

section \<open>The invariant of reachable states\<close>

text \<open>
  The candidates left are a suffix of the enumeration; every clue was scored against the
  secret and was no full match; and each phase has its clue count: below
  \<open>MAX_TRIES\<close> while running, when solved and when depleted, exactly \<open>MAX_TRIES\<close>
  when exhausted; a code is found exactly when solved, a full match consistent with the
  history.
\<close>

definition game_inv :: "Code \<Rightarrow> Code list \<Rightarrow> game \<Rightarrow> bool" where
  "game_inv answer cands g \<longleftrightarrow>
     suffix (remaining g) cands \<and> scored_against answer (history g) \<and>
     (case phase g of
        RUNNING \<Rightarrow> length (history g) < MAX_TRIES \<and> found g = None
      | SOLVED \<Rightarrow> length (history g) < MAX_TRIES \<and>
          (case found g of None \<Rightarrow> False
           | Some c \<Rightarrow> num_correct (score_guess c answer) = CODE_LEN \<and>
                       consistent_with c (history g))
      | EXHAUSTED \<Rightarrow> length (history g) = MAX_TRIES \<and> found g = None
      | DEPLETED \<Rightarrow> length (history g) < MAX_TRIES \<and> remaining g = [] \<and> found g = None)"

lemma game_inv_start: "game_inv answer cands (game_start cands [])"
  by (simp add: game_inv_def game_start_def scored_against_def MAX_TRIES_def)

lemma game_step_inv:
  "game_step answer g g' \<Longrightarrow> game_inv answer cands g \<Longrightarrow> game_inv answer cands g'"
  by (induction rule: game_step.induct) (auto simp: game_inv_def dest: suffix_ConsD)

text \<open>Every state the machine reaches from the start satisfies the invariant.\<close>

lemma reachable_game_inv:
  "reachable answer cands g \<Longrightarrow> game_inv answer cands g"
  unfolding reachable_def
  by (induction rule: rtranclp_induct) (auto intro: game_inv_start game_step_inv)

section \<open>The code refines the machine\<close>

lemma consistent_with_snoc [simp]:
  "consistent_with guess (cs @ [(c, s)]) \<longleftrightarrow> consistent_with guess cs \<and> score_guess guess c = s"
  by (simp add: consistent_with_def)

lemma game_start_step:
  "(game_start (c # cs) h)\<lparr>remaining := cs\<rparr> = game_start cs h"
  "(game_start cs h)\<lparr>history := h'\<rparr> = game_start cs h'"
  by (simp_all add: game_start_def)

text \<open>
  From a history below \<open>MAX_TRIES\<close>, the loop over the candidates ends with the history
  and the result of a terminal state that the machine reaches from the same candidates
  and history.
\<close>

lemma solve_loop_refines:
  "length (clues st) < MAX_TRIES \<Longrightarrow> solve_loop answer cands st = (r, st') \<Longrightarrow>
   \<exists>g. (game_step answer)\<^sup>*\<^sup>* (game_start cands (clues st)) g \<and>
       phase g \<noteq> RUNNING \<and> history g = clues st' \<and> found g = r"
proof (induction cands arbitrary: st)
  case Nil
  have "game_step answer (game_start [] (clues st)) ((game_start [] (clues st))\<lparr>phase := DEPLETED\<rparr>)"
    by (rule game_step.depleted) (simp_all add: game_start_def)
  with Nil show ?case
    by (intro exI [of _ "(game_start [] (clues st))\<lparr>phase := DEPLETED\<rparr>"])
       (auto simp: game_start_def)
next
  case (Cons c cs)
  let ?g = "game_start (c # cs) (clues st)"
  have run: "phase ?g = RUNNING" "remaining ?g = c # cs" "history ?g = clues st"
    by (simp_all add: game_start_def)
  show ?case
  proof (cases rule: solve_body_cases [of c st answer])
    case skip
    with Cons.prems have "solve_loop answer cs st = (r, st')" by simp
    with Cons.prems(1) obtain g where
      g: "(game_step answer)\<^sup>*\<^sup>* (game_start cs (clues st)) g"
        "phase g \<noteq> RUNNING \<and> history g = clues st' \<and> found g = r"
      using Cons.IH by blast
    have "game_step answer ?g (game_start cs (clues st))"
      using game_step.skip [OF run(1,2)] skip run(3)
      by (simp add: solution_matches_clues_consistent_with game_start_step)
    with g show ?thesis by (blast intro: converse_rtranclp_into_rtranclp)
  next
    case found
    with Cons.prems have r: "r = Some c" "clues st' = clues st" by auto
    have "game_step answer ?g (?g\<lparr>phase := SOLVED, remaining := cs, found := Some c\<rparr>)"
      using game_step.solved [OF run(1,2)] found run(3)
      by (simp add: solution_matches_clues_consistent_with)
    with r show ?thesis
      by (intro exI [of _ "?g\<lparr>phase := SOLVED, remaining := cs, found := Some c\<rparr>"])
         (auto simp: game_start_def)
  next
    case clue
    let ?h = "clues st @ [(c, score_guess c answer)]"
    have cons: "consistent_with c (history ?g)"
      using clue run(3) by (simp add: solution_matches_clues_consistent_with)
    show ?thesis
    proof (cases "Suc (length (clues st)) = MAX_TRIES")
      case True
      with clue Cons.prems have r: "r = None" "clues st' = ?h" by auto
      have "game_step answer ?g (?g\<lparr>phase := EXHAUSTED, remaining := cs, history := ?h\<rparr>)"
        using game_step.exhausted [OF run(1,2) cons] clue True run(3) by simp
      with r show ?thesis
        by (intro exI [of _ "?g\<lparr>phase := EXHAUSTED, remaining := cs, history := ?h\<rparr>"])
           (auto simp: game_start_def)
    next
      case False
      with Cons.prems(1) have lt: "Suc (length (clues st)) < MAX_TRIES" by simp
      define st'' where "st'' = st\<lparr>printed := printed st @ [Guess_line (guess_num st) c (score_guess c answer)],
              clues := ?h, guess_num := guess_num st + 1\<rparr>"
      have h: "clues st'' = ?h" by (simp add: st''_def)
      from clue Cons.prems(2) lt have "solve_loop answer cs st'' = (r, st')"
        by (simp add: st''_def)
      with lt h obtain g where
        g: "(game_step answer)\<^sup>*\<^sup>* (game_start cs ?h) g"
          "phase g \<noteq> RUNNING \<and> history g = clues st' \<and> found g = r"
        using Cons.IH [of st''] by auto
      have "game_step answer ?g (game_start cs ?h)"
        using game_step.clue [OF run(1,2) cons] clue lt run(3)
        by (simp add: game_start_step)
      with g show ?thesis by (blast intro: converse_rtranclp_into_rtranclp)
    qed
  qed
qed

text \<open>
  C6: \<open>solve\<close> refines the spec's machine: its result and final clue list are those
  of a terminal state the machine reaches from the full enumeration, and since the
  machine is deterministic, of the only one.
\<close>

theorem solve_refines_game:
  "solve answer = (r, st) \<Longrightarrow>
   \<exists>g. reachable answer all_possible_solutions g \<and> phase g \<noteq> RUNNING \<and>
       history g = clues st \<and> found g = r"
  unfolding solve_def reachable_def
  using solve_loop_refines [of solve_init answer all_possible_solutions r st]
  by (simp add: solve_init_def MAX_TRIES_def)

theorem solve_refines_game_witness:
  "solve [RED, GREEN, YELLOW, BLUE] =
     (Some [RED, GREEN, YELLOW, BLUE],
      \<lparr>clues = [([RED, GREEN, BLUE, YELLOW], Score 2 2)], guess_num = 2,
       printed = [Guess_line 1 [RED, GREEN, BLUE, YELLOW] (Score 2 2),
                  Guess_line 2 [RED, GREEN, YELLOW, BLUE] (Score 4 0)]\<rparr>) \<and>
   (\<exists>g. reachable [RED, GREEN, YELLOW, BLUE] all_possible_solutions g \<and> phase g = SOLVED \<and>
        history g = [([RED, GREEN, BLUE, YELLOW], Score 2 2)] \<and>
        found g = Some [RED, GREEN, YELLOW, BLUE])"
proof -
  have run: "solve [RED, GREEN, YELLOW, BLUE] =
     (Some [RED, GREEN, YELLOW, BLUE],
      \<lparr>clues = [([RED, GREEN, BLUE, YELLOW], Score 2 2)], guess_num = 2,
       printed = [Guess_line 1 [RED, GREEN, BLUE, YELLOW] (Score 2 2),
                  Guess_line 2 [RED, GREEN, YELLOW, BLUE] (Score 4 0)]\<rparr>)"
    by code_simp
  from solve_refines_game [OF run] obtain g where
    g: "reachable [RED, GREEN, YELLOW, BLUE] all_possible_solutions g" "phase g \<noteq> RUNNING"
       "history g = [([RED, GREEN, BLUE, YELLOW], Score 2 2)]"
       "found g = Some [RED, GREEN, YELLOW, BLUE]"
    by auto
  have "phase g = SOLVED"
    using reachable_game_inv [OF g(1)] g(2,4) by (cases "phase g") (auto simp: game_inv_def)
  with g run show ?thesis by blast
qed

end
