(* ===== verification/Strategy.thy ===== *)
theory Strategy
  imports Solver
begin

text \<open>
  The solver's strategy stated without the scan over the enumeration, and the exhaustive
  check that it finds every secret. \<open>strat\<close> keeps the list of codes consistent with
  the clues so far (in enumeration order), guesses its first element, and narrows the
  list to the codes that score against that guess as the secret did. The lemmas show
  that \<open>solve\<close> computes exactly this (its next guess is always the first enumerated
  code consistent with every clue), and that the tree check \<open>solves_within d A\<close>,
  which splits \<open>A\<close> by score against its first element and checks each part at depth
  \<open>d - 1\<close>, guarantees that every secret of \<open>A\<close> is found within \<open>d\<close> guesses.
  The check is then run by the kernel's evaluator on the whole enumeration at depth 7;
  the first level is split by blocks of the enumeration and by score classes, which
  keeps each evaluated list short.
\<close>

section \<open>The strategy\<close>

fun strat :: "Code \<Rightarrow> Code list \<Rightarrow> Clue list \<Rightarrow> Code option \<times> Clue list" where
  "strat answer [] hist = (None, hist)"
| "strat answer (g # rest) hist =
     (let s = score_guess g answer in
      if num_correct s = CODE_LEN then (Some g, hist)
      else if Suc (length hist) = MAX_TRIES then (None, hist @ [(g, s)])
      else strat answer (filter (\<lambda>c. score_guess c g = s) rest) (hist @ [(g, s)]))"

lemma solve_loop_strat:
  "length (clues st) < MAX_TRIES \<Longrightarrow>
   (fst (solve_loop answer cands st), clues (snd (solve_loop answer cands st))) =
   strat answer (filter (\<lambda>c. solution_matches_clues c (clues st)) cands) (clues st)"
proof (induction cands arbitrary: st)
  case Nil
  then show ?case by simp
next
  case (Cons c cs)
  show ?case
  proof (cases rule: solve_body_cases [of c st answer])
    case skip
    with Cons show ?thesis by simp
  next
    case found
    then show ?thesis by (simp add: Let_def)
  next
    case clue
    define st'' where "st'' = st\<lparr>printed := printed st @ [Guess_line (guess_num st) c (score_guess c answer)],
        clues := clues st @ [(c, score_guess c answer)], guess_num := guess_num st + 1\<rparr>"
    have c'': "clues st'' = clues st @ [(c, score_guess c answer)]" by (simp add: st''_def)
    have filt: "filter (\<lambda>x. solution_matches_clues x (clues st'')) cs =
        filter (\<lambda>x. score_guess x c = score_guess c answer)
          (filter (\<lambda>x. solution_matches_clues x (clues st)) cs)"
      by (auto simp: c'' filter_filter intro!: filter_cong)
    show ?thesis
    proof (cases "Suc (length (clues st)) = MAX_TRIES")
      case True
      with clue show ?thesis by (simp add: Let_def)
    next
      case False
      with Cons.prems have lt: "length (clues st'') < MAX_TRIES" by (simp add: c'')
      from clue False have "solve_loop answer (c # cs) st = solve_loop answer cs st''"
        by (simp add: st''_def)
      then have "(fst (solve_loop answer (c # cs) st), clues (snd (solve_loop answer (c # cs) st))) =
                 strat answer (filter (\<lambda>x. solution_matches_clues x (clues st'')) cs) (clues st'')"
        using Cons.IH [OF lt] by simp
      also have "\<dots> = strat answer (filter (\<lambda>x. score_guess x c = score_guess c answer)
                          (filter (\<lambda>x. solution_matches_clues x (clues st)) cs))
                        (clues st @ [(c, score_guess c answer)])"
        unfolding filt by (simp only: c'')
      also have "\<dots> = strat answer (filter (\<lambda>x. solution_matches_clues x (clues st)) (c # cs)) (clues st)"
        using clue False by (simp add: Let_def del: filter_filter)
      finally show ?thesis .
    qed
  qed
qed

lemma solve_strat:
  "(fst (solve answer), clues (snd (solve answer))) = strat answer all_possible_solutions []"
  using solve_loop_strat [of solve_init answer all_possible_solutions]
  by (simp add: solve_def solve_init_def MAX_TRIES_def)

text \<open>
  C2: \<open>solve\<close> plays the strategy: its result and its clues are those of \<open>strat\<close> on
  the whole enumeration, so each guess is the first enumerated code consistent with all
  the clues before it.
\<close>

theorem solve_is_strat:
  "(fst (solve answer), clues (snd (solve answer))) = strat answer all_possible_solutions []"
  by (rule solve_strat)

section \<open>The tree check\<close>

text \<open>The fifteen scores two codes of four pegs can have.\<close>

definition all_scores :: "Score list" where
  "all_scores = concat (map (\<lambda>n. map (\<lambda>w. Score n (int w)) [0..<Suc (4 - n)]) [0..<5])"

lemma score_guess_in_all_scores:
  assumes "length c = CODE_LEN"
  shows "score_guess c g \<in> set all_scores"
proof -
  have b: "agree_count c g \<le> present_count c g" "present_count c g \<le> length c"
    by (rule agree_count_le_members) (rule length_filter_le)
  let ?n = "agree_count c g" and ?w = "present_count c g - agree_count c g"
  have "?n < 5" "?w < Suc (4 - ?n)" using b assms by (simp_all add: CODE_LEN_def)
  moreover have "score_guess c g = Score ?n (int ?w)"
    using b by (simp add: score_guess_Score of_nat_diff)
  ultimately show ?thesis
    unfolding all_scores_def
    by (auto simp del: upt_Suc intro!: bexI [of _ ?n] image_eqI [of _ _ ?w])
qed

fun solves_within :: "nat \<Rightarrow> Code list \<Rightarrow> bool" where
  "solves_within 0 A = (A = [])"
| "solves_within (Suc d) A =
     (case A of [] \<Rightarrow> True
      | g # rest \<Rightarrow>
          (let ps = map (\<lambda>c. (score_guess c g, c)) rest in
           list_all (\<lambda>s. solves_within d (map snd (filter (\<lambda>p. fst p = s) ps))) all_scores))"

lemma classes_pairs:
  "map snd (filter (\<lambda>p. fst p = s) (map (\<lambda>c. (f c, c)) xs)) = filter (\<lambda>c. f c = s) xs"
  by (induction xs) auto

lemma solves_within_strat:
  "solves_within d A \<Longrightarrow> a \<in> set A \<Longrightarrow> \<forall>c \<in> set A. distinct c \<and> length c = CODE_LEN \<Longrightarrow>
   length hist + d \<le> MAX_TRIES \<Longrightarrow>
   fst (strat a A hist) = Some a \<and> length (snd (strat a A hist)) < length hist + d"
proof (induction d arbitrary: A hist)
  case 0
  then show ?case by simp
next
  case (Suc d)
  then obtain g rest where A: "A = g # rest" by (cases A) auto
  have a: "distinct a" "length a = CODE_LEN" and g: "distinct g" "length g = CODE_LEN"
    using Suc.prems(2,3) A by auto
  show ?case
  proof (cases "g = a")
    case True
    with A a show ?thesis by (simp add: Let_def)
  next
    case False
    let ?s = "score_guess g a"
    let ?cls = "filter (\<lambda>c. score_guess c g = ?s) rest"
    have nf: "num_correct ?s \<noteq> CODE_LEN"
      using False a g score_guess_full_match [of g a] by simp
    have in_cls: "a \<in> set ?cls"
      using Suc.prems(2) A False a g by (simp add: score_guess_commute)
    have "solves_within d ?cls"
      using Suc.prems(1) A score_guess_in_all_scores [OF a(2), of g]
      by (auto simp: list_all_iff classes_pairs score_guess_commute a g)
    with in_cls have d: "0 < d" by (cases d) (auto simp: filter_empty_conv)
    with Suc.prems(4) have ne: "Suc (length hist) \<noteq> MAX_TRIES" by simp
    have cls: "\<forall>c \<in> set ?cls. distinct c \<and> length c = CODE_LEN"
      using Suc.prems(3) A by auto
    have "length (hist @ [(g, ?s)]) + d \<le> MAX_TRIES"
      using Suc.prems(4) by simp
    note IH = Suc.IH [OF \<open>solves_within d ?cls\<close> in_cls cls this]
    from IH A nf ne show ?thesis by (simp add: Let_def)
  qed
qed

section \<open>The check on all 1680 codes\<close>

text \<open>
  The enumeration in its eight blocks by first colour, and the classes of the first guess
  \<open>[RED, GREEN, BLUE, YELLOW]\<close> filtered block by block.
\<close>

definition candidate_blocks :: "Code list list" where
  "candidate_blocks = map (\<lambda>(x, rest). map ((#) x) (permutations rest 3)) (select Colors_enum)"

definition top_class :: "Score \<Rightarrow> Code list" where
  "top_class s = concat (map (filter (\<lambda>c. score_guess c [RED, GREEN, BLUE, YELLOW] = s))
                             (tl (hd candidate_blocks) # tl candidate_blocks))"

lemma all_possible_solutions_blocks:
  "all_possible_solutions = [RED, GREEN, BLUE, YELLOW] # concat (tl (hd candidate_blocks) # tl candidate_blocks)"
proof -
  have four: "CODE_LEN = Suc 3" by (simp add: CODE_LEN_def)
  have eq: "all_possible_solutions = concat candidate_blocks"
    unfolding all_possible_solutions_def four permutations.simps(2) candidate_blocks_def ..
  have ne: "candidate_blocks \<noteq> [] \<and> hd candidate_blocks \<noteq> [] \<and>
            hd (hd candidate_blocks) = [RED, GREEN, BLUE, YELLOW]"
    by code_simp
  then have "concat candidate_blocks =
      (hd (hd candidate_blocks) # tl (hd candidate_blocks)) @ concat (tl candidate_blocks)"
    by (metis concat.simps(2) list.collapse)
  with eq ne show ?thesis by simp
qed

lemma solves_within_Suc_concat:
  "solves_within (Suc d) (g # concat bs) =
   list_all (\<lambda>s. solves_within d (concat (map (filter (\<lambda>c. score_guess c g = s)) bs))) all_scores"
  by (simp add: classes_pairs filter_concat)

lemma all_scores_list:
  "all_scores = [Score 0 0, Score 0 1, Score 0 2, Score 0 3, Score 0 4, Score 1 0, Score 1 1,
     Score 1 2, Score 1 3, Score 2 0, Score 2 1, Score 2 2, Score 3 0, Score 3 1, Score 4 0]"
  by code_simp

lemma tree_big: "solves_within 6 (top_class (Score 0 2))"
  by code_simp

lemma tree_mid: "list_all (\<lambda>s. solves_within 6 (top_class s)) [Score 0 1, Score 1 1]"
  by code_simp

lemma tree_rest: "list_all (\<lambda>s. solves_within 6 (top_class s))
  [Score 0 0, Score 0 3, Score 0 4, Score 1 0, Score 1 2, Score 1 3, Score 2 0, Score 2 1,
   Score 2 2, Score 3 0, Score 3 1, Score 4 0]"
  by code_simp

lemma solves_within_all: "solves_within 7 all_possible_solutions"
proof -
  have "list_all (\<lambda>s. solves_within 6 (top_class s)) all_scores"
    using tree_big tree_mid tree_rest by (simp add: all_scores_list)
  then have "solves_within (Suc 6) all_possible_solutions"
    unfolding all_possible_solutions_blocks solves_within_Suc_concat top_class_def .
  then show ?thesis by simp
qed


text \<open>
  The tree check applied to the enumeration: every enumerated secret is found by the
  strategy, and so by \<open>solve\<close>, with fewer than 7 clues recorded.
\<close>

lemma strat_finds_every_secret:
  assumes "answer \<in> set all_possible_solutions"
  shows "fst (strat answer all_possible_solutions []) = Some answer \<and>
         length (snd (strat answer all_possible_solutions [])) < 7"
proof -
  have codes: "\<forall>c \<in> set all_possible_solutions. distinct c \<and> length c = CODE_LEN"
    by (simp add: set_all_possible_solutions)
  show ?thesis
    using solves_within_strat [OF solves_within_all assms codes, of "[]"]
    by (simp add: MAX_TRIES_def)
qed

lemma solve_finds_secret:
  assumes "answer \<in> set all_possible_solutions"
  shows "fst (solve answer) = Some answer \<and> length (clues (snd (solve answer))) < 7"
proof -
  have "strat answer all_possible_solutions [] = (fst (solve answer), clues (snd (solve answer)))"
    by (simp add: solve_strat)
  with strat_finds_every_secret [OF assms] show ?thesis by simp
qed

end
