(* ===== verification/Formatter.thy ===== *)
theory Formatter
  imports Data_Model "HOL-Library.Monad_Syntax"
begin

text \<open>
  The formatter of \<open>src/mastermind.py\<close>, lines 23--50: \<open>format_code\<close> renders a code as
  one styled bullet per peg, looked up in a table from colours to terminal styles, and
  \<open>format_clue\<close> renders a score as two styled numbers. Strings are byte strings, the
  text as \<open>print\<close> writes it to a UTF-8 terminal: the bullet U+25CF is its three UTF-8
  bytes. Two library parts are modelled from their documentation: Python's \<open>str\<close> on
  integers (\<open>str_int\<close>, decimal digits with a minus sign), and colorama's constants
  (\<open>ansi\<close>, \<open>ansi_code\<close>, \<open>code_to_chars\<close>: \<open>CSI + str(code) + 'm'\<close>, with the
  codes of \<open>colorama/ansi.py\<close>; the program never calls \<open>colorama.init\<close>, so the escape
  sequences are written as they are). Decoders read each rendering back, and the lemmas
  show that each decoder inverts its renderer even when other text follows, so that
  the renderers are injective.
\<close>

section \<open>Python's \<open>str\<close> on integers\<close>

definition digit_char :: "nat \<Rightarrow> char" where
  "digit_char d = ''0123456789'' ! d"

fun digits :: "nat \<Rightarrow> string" where
  "digits n = (if n < 10 then [digit_char n] else digits (n div 10) @ [digit_char (n mod 10)])"

declare digits.simps [simp del]

definition str_int :: "int \<Rightarrow> string" where
  "str_int i = (if i < 0 then CHR ''-'' # digits (nat (- i)) else digits (nat i))"

definition is_digit :: "char \<Rightarrow> bool" where
  "is_digit c \<longleftrightarrow> 48 \<le> (of_char c :: nat) \<and> (of_char c :: nat) \<le> 57"

definition digit_value :: "char \<Rightarrow> nat" where
  "digit_value c = of_char c - 48"

definition read_nat :: "string \<Rightarrow> nat" where
  "read_nat ds = foldl (\<lambda>n c. 10 * n + digit_value c) 0 ds"

definition parse_nat :: "string \<Rightarrow> (nat \<times> string) option" where
  "parse_nat s =
     (let ds = takeWhile is_digit s
      in if ds = [] then None else Some (read_nat ds, dropWhile is_digit s))"

definition parse_int :: "string \<Rightarrow> (int \<times> string) option" where
  "parse_int s =
     (case s of
        c # r \<Rightarrow> if c = CHR ''-'' then map_option (\<lambda>(n, r). (- int n, r)) (parse_nat r)
                 else map_option (\<lambda>(n, r). (int n, r)) (parse_nat s)
      | [] \<Rightarrow> None)"

lemma digit_char_props:
  assumes "d < 10"
  shows "is_digit (digit_char d)" and "digit_value (digit_char d) = d"
proof -
  have "d \<in> {0, 1, 2, 3, 4, 5, 6, 7, 8, 9}" using assms by auto
  then show "is_digit (digit_char d)" and "digit_value (digit_char d) = d"
    by (auto simp: digit_char_def is_digit_def digit_value_def)
qed

lemma digits_ne [simp]: "digits n \<noteq> []"
  by (subst digits.simps) simp

lemma digits_all_digits: "c \<in> set (digits n) \<Longrightarrow> is_digit c"
proof (induction n rule: digits.induct)
  case (1 n)
  then show ?case
    by (subst (asm) digits.simps) (auto simp: digit_char_props split: if_splits)
qed

lemma read_nat_snoc: "read_nat (ds @ [c]) = 10 * read_nat ds + digit_value c"
  by (simp add: read_nat_def)

lemma read_nat_digits: "read_nat (digits n) = n"
proof (induction n rule: digits.induct)
  case (1 n)
  show ?case
  proof (cases "n < 10")
    case True
    then show ?thesis by (subst digits.simps) (simp add: read_nat_def digit_char_props)
  next
    case False
    then have "read_nat (digits n) = 10 * (n div 10) + n mod 10"
      using "1.IH" by (subst digits.simps) (simp add: read_nat_snoc digit_char_props)
    then show ?thesis by simp
  qed
qed

text \<open>A field that follows a number starts with a character that is not a digit.\<close>

definition no_digit_start :: "string \<Rightarrow> bool" where
  "no_digit_start r \<longleftrightarrow> (case r of [] \<Rightarrow> True | c # _ \<Rightarrow> \<not> is_digit c)"

lemma parse_nat_digits:
  assumes "no_digit_start r"
  shows "parse_nat (digits n @ r) = Some (n, r)"
proof -
  have r: "takeWhile is_digit r = [] \<and> dropWhile is_digit r = r"
    using assms by (cases r) (simp_all add: no_digit_start_def)
  have "takeWhile is_digit (digits n @ r) = digits n"
    using r by (simp add: takeWhile_append2 digits_all_digits)
  moreover have "dropWhile is_digit (digits n @ r) = r"
    using r by (simp add: dropWhile_append2 digits_all_digits)
  ultimately show ?thesis
    by (simp add: parse_nat_def read_nat_digits)
qed

lemma parse_int_str_int:
  assumes "no_digit_start r"
  shows "parse_int (str_int i @ r) = Some (i, r)"
proof (cases "i < 0")
  case True
  then show ?thesis
    using parse_nat_digits [OF assms, of "nat (- i)"] by (simp add: str_int_def parse_int_def)
next
  case False
  obtain c cs where dc: "digits (nat i) = c # cs"
    by (cases "digits (nat i)") auto
  then have "c \<noteq> CHR ''-''"
    using digits_all_digits [of c "nat i"] by (auto simp: is_digit_def)
  with False dc show ?thesis
    using parse_nat_digits [OF assms, of "nat i"] by (simp add: str_int_def parse_int_def)
qed

section \<open>The colorama constants\<close>

datatype ansi =
    Style_BRIGHT | Style_NORMAL | Style_RESET_ALL
  | Fore_RED | Fore_GREEN | Fore_YELLOW | Fore_BLUE | Fore_MAGENTA | Fore_CYAN | Fore_WHITE

fun ansi_code :: "ansi \<Rightarrow> nat" where
  "ansi_code Style_BRIGHT = 1"
| "ansi_code Style_NORMAL = 22"
| "ansi_code Style_RESET_ALL = 0"
| "ansi_code Fore_RED = 31"
| "ansi_code Fore_GREEN = 32"
| "ansi_code Fore_YELLOW = 33"
| "ansi_code Fore_BLUE = 34"
| "ansi_code Fore_MAGENTA = 35"
| "ansi_code Fore_CYAN = 36"
| "ansi_code Fore_WHITE = 37"

definition CSI :: string where
  "CSI = [CHR 0x1B, CHR ''['']"

definition code_to_chars :: "nat \<Rightarrow> string" where
  "code_to_chars code = CSI @ str_int (int code) @ ''m''"

definition sgr :: "ansi \<Rightarrow> string" where
  "sgr a = code_to_chars (ansi_code a)"

section \<open>\<open>format_code\<close> and \<open>format_clue\<close>\<close>

text \<open>The bullet U+25CF as the three bytes of its UTF-8 encoding, as \<open>print\<close> writes it.\<close>

definition BULLET :: string where
  "BULLET = [CHR 0xE2, CHR 0x97, CHR 0x8F]"

fun color_lookup :: "Colors \<Rightarrow> string" where
  "color_lookup RED = sgr Style_BRIGHT @ sgr Fore_RED"
| "color_lookup GREEN = sgr Style_BRIGHT @ sgr Fore_GREEN"
| "color_lookup BLUE = sgr Style_BRIGHT @ sgr Fore_BLUE"
| "color_lookup YELLOW = sgr Style_BRIGHT @ sgr Fore_YELLOW"
| "color_lookup WHITE = sgr Style_BRIGHT @ sgr Fore_WHITE"
| "color_lookup GREY = sgr Style_NORMAL @ sgr Fore_WHITE"
| "color_lookup PINK = sgr Style_BRIGHT @ sgr Fore_MAGENTA"
| "color_lookup CYAN = sgr Style_BRIGHT @ sgr Fore_CYAN"

definition format_code :: "Code \<Rightarrow> string" where
  "format_code code =
     (let s = foldl (\<lambda>s color. s @ color_lookup color @ BULLET) [] code
      in s @ sgr Style_RESET_ALL)"

definition format_clue :: "Score \<Rightarrow> string" where
  "format_clue clue =
     sgr Style_BRIGHT @ sgr Fore_RED @ str_int (int (num_correct clue)) @ '' '' @
     sgr Fore_WHITE @ str_int (num_almost_correct clue) @ sgr Style_RESET_ALL"

section \<open>Decoders\<close>

definition starts_with :: "'a list \<Rightarrow> 'a list \<Rightarrow> bool" where
  "starts_with p s \<longleftrightarrow> take (length p) s = p"

definition chop :: "'a list \<Rightarrow> 'a list \<Rightarrow> 'a list option" where
  "chop p s = (if starts_with p s then Some (drop (length p) s) else None)"

definition peg :: "Colors \<Rightarrow> string" where
  "peg color = color_lookup color @ BULLET"

function decode_code :: "string \<Rightarrow> (Code \<times> string) option" where
  "decode_code s =
     (case chop (sgr Style_RESET_ALL) s of
        Some r \<Rightarrow> Some ([], r)
      | None \<Rightarrow>
          (case find (\<lambda>color. starts_with (peg color) s) Colors_enum of
             None \<Rightarrow> None
           | Some color \<Rightarrow>
               map_option (\<lambda>(code, r). (color # code, r))
                 (decode_code (drop (length (peg color)) s))))"
  by pat_completeness auto

lemma peg_length: "length (peg color) \<ge> 12"
  by (cases color) (simp_all add: peg_def BULLET_def sgr_def code_to_chars_def CSI_def
      str_int_def digits.simps)

termination decode_code
proof (relation "measure length")
  fix s color
  assume "find (\<lambda>color. starts_with (peg color) s) Colors_enum = Some color"
  then have "starts_with (peg color) s" by (auto simp: find_Some_iff)
  then have "length (peg color) \<le> length s"
    by (auto simp: starts_with_def dest: arg_cong [of _ _ length])
  with peg_length [of color] show "(drop (length (peg color)) s, s) \<in> measure length"
    by simp
qed simp

declare decode_code.simps [simp del]

definition decode_clue :: "string \<Rightarrow> (Score \<times> string) option" where
  "decode_clue s = do {
     r \<leftarrow> chop (sgr Style_BRIGHT @ sgr Fore_RED) s;
     (n, r) \<leftarrow> parse_nat r;
     r \<leftarrow> chop ('' '' @ sgr Fore_WHITE) r;
     (a, r) \<leftarrow> parse_int r;
     r \<leftarrow> chop (sgr Style_RESET_ALL) r;
     Some (Score n a, r)
   }"

section \<open>The escape sequences as strings\<close>

lemma sgr_strings [simp]:
  "sgr Style_BRIGHT = [CHR 0x1B, CHR ''['', CHR ''1'', CHR ''m'']"
  "sgr Style_NORMAL = [CHR 0x1B, CHR ''['', CHR ''2'', CHR ''2'', CHR ''m'']"
  "sgr Style_RESET_ALL = [CHR 0x1B, CHR ''['', CHR ''0'', CHR ''m'']"
  "sgr Fore_RED = [CHR 0x1B, CHR ''['', CHR ''3'', CHR ''1'', CHR ''m'']"
  "sgr Fore_GREEN = [CHR 0x1B, CHR ''['', CHR ''3'', CHR ''2'', CHR ''m'']"
  "sgr Fore_YELLOW = [CHR 0x1B, CHR ''['', CHR ''3'', CHR ''3'', CHR ''m'']"
  "sgr Fore_BLUE = [CHR 0x1B, CHR ''['', CHR ''3'', CHR ''4'', CHR ''m'']"
  "sgr Fore_MAGENTA = [CHR 0x1B, CHR ''['', CHR ''3'', CHR ''5'', CHR ''m'']"
  "sgr Fore_CYAN = [CHR 0x1B, CHR ''['', CHR ''3'', CHR ''6'', CHR ''m'']"
  "sgr Fore_WHITE = [CHR 0x1B, CHR ''['', CHR ''3'', CHR ''7'', CHR ''m'']"
  by (simp_all add: sgr_def code_to_chars_def CSI_def str_int_def digits.simps digit_char_def)

lemma chop_append [simp]: "chop p (p @ s) = Some s"
  by (simp add: chop_def starts_with_def)

lemma chop_Nil [simp]: "chop [] s = Some s"
  by (simp add: chop_def starts_with_def)

lemma chop_Cons [simp]: "chop (a # p) (a # s) = chop p s"
  by (simp add: chop_def starts_with_def)

lemma starts_with_iff: "starts_with p s \<longleftrightarrow> (\<exists>r. s = p @ r)"
  by (metis append_eq_conv_conj append_take_drop_id starts_with_def)

lemma chop_Cons_neq [simp]: "a \<noteq> b \<Longrightarrow> chop (a # p) (b # s) = None"
  by (simp add: chop_def starts_with_def)

lemma chop_append_prefix [simp]: "chop (p @ q) s = Option.bind (chop p s) (chop q)"
proof (cases "starts_with p s")
  case True
  then obtain r where "s = p @ r" by (auto simp: starts_with_iff)
  then show ?thesis by (simp add: chop_def starts_with_def)
next
  case False
  then have "\<not> starts_with (p @ q) s" by (auto simp: starts_with_iff)
  with False show ?thesis by (simp add: chop_def)
qed

lemma format_code_pegs: "format_code code = concat (map peg code) @ sgr Style_RESET_ALL"
proof -
  have "foldl (\<lambda>s color. s @ color_lookup color @ BULLET) acc code = acc @ concat (map peg code)"
    for acc
    by (induction code arbitrary: acc) (simp_all add: peg_def)
  then show ?thesis
    by (simp add: format_code_def Let_def del: sgr_strings)
qed

lemma starts_with_peg_iff [simp]: "starts_with (peg color) (peg x @ r) \<longleftrightarrow> color = x"
  by (cases color; cases x) (simp_all add: starts_with_def peg_def BULLET_def)

lemma chop_reset_peg [simp]: "chop (sgr Style_RESET_ALL) (peg x @ r) = None"
  by (cases x) (simp_all add: chop_def starts_with_def peg_def BULLET_def)

lemma find_color_eq [simp]: "find (\<lambda>color. color = x) Colors_enum = Some x"
  by (cases x) (simp_all add: Colors_enum_def)

lemma decode_code_format_code: "decode_code (format_code code @ r) = Some (code, r)"
proof (induction code)
  case Nil
  then show ?case
    by (subst decode_code.simps) (simp add: format_code_pegs del: sgr_strings)
next
  case (Cons x code)
  have "format_code (x # code) @ r = peg x @ (format_code code @ r)"
    by (simp add: format_code_pegs del: sgr_strings)
  with Cons.IH show ?case
    by (subst decode_code.simps) (simp del: sgr_strings)
qed

lemma no_digit_start_simps [simp]:
  "no_digit_start []"
  "no_digit_start (c # r) \<longleftrightarrow> \<not> is_digit c"
  by (simp_all add: no_digit_start_def)

lemma str_int_nat [simp]: "str_int (int n) = digits n"
  by (simp add: str_int_def)

lemma no_digit_start_sgr [simp]: "no_digit_start (sgr a @ r)"
  by (simp add: sgr_def code_to_chars_def CSI_def is_digit_def)

lemma decode_clue_format_clue: "decode_clue (format_clue clue @ r) = Some (clue, r)"
  by (cases clue)
     (simp add: decode_clue_def format_clue_def parse_nat_digits parse_int_str_int
        is_digit_def del: sgr_strings)

section \<open>Properties of the formatter\<close>

text \<open>
  Python's \<open>str\<close> on integers, as modelled, is read back exactly: the decimal text of
  any integer, with its minus sign, parses to that integer.
\<close>

lemma str_int_roundtrip: "parse_int (str_int i) = Some (i, [])"
  using parse_int_str_int [of "[]" i] by simp

text \<open>
  C23: \<open>format_code\<close> loses nothing: two codes are rendered as the same string only
  when they are the same code, since the rendering is decoded back to the code.
\<close>

theorem format_code_injective: "format_code a = format_code b \<longleftrightarrow> a = b"
proof
  assume eq: "format_code a = format_code b"
  have "decode_code (format_code a @ []) = Some (a, [])"
    by (rule decode_code_format_code)
  moreover have "decode_code (format_code b @ []) = Some (b, [])"
    by (rule decode_code_format_code)
  ultimately show "a = b" using eq by simp
qed simp

text \<open>
  C24: \<open>format_clue\<close> loses nothing: the two counts are read back from the styled text,
  a negative count included.
\<close>

theorem format_clue_injective: "format_clue a = format_clue b \<longleftrightarrow> a = b"
proof
  assume eq: "format_clue a = format_clue b"
  have "decode_clue (format_clue a @ []) = Some (a, [])"
    by (rule decode_clue_format_clue)
  moreover have "decode_clue (format_clue b @ []) = Some (b, [])"
    by (rule decode_clue_format_clue)
  ultimately show "a = b" using eq by simp
qed simp

end
