(* ===== verification/Output.thy ===== *)
theory Output
  imports Formatter Driver
begin

text \<open>
  The text the program prints: the three \<open>print\<close> calls of \<open>src/mastermind.py\<close> (the
  guess line, line 77; the failure notice, line 85; the game announcement, line 91) as
  \<open>game_text\<close>, \<open>guess_text\<close> and \<open>failure_text\<close>, selected by \<open>render_line\<close> for
  the lines \<open>out_line\<close> that the solver and the script record, and the standard output
  \<open>stdout\<close> of a sequence of lines, each followed by a newline. A decoder splits the
  output into lines and reads each back; the lemmas show that it recovers the lines
  from the output, and that every line the script prints is well formed.
\<close>

section \<open>The printed lines\<close>

definition game_text :: "nat \<Rightarrow> Code \<Rightarrow> string" where
  "game_text number code =
     ''Game number '' @ str_int (int number) @ '', Selected code is '' @ format_code code"

definition guess_text :: "nat \<Rightarrow> Code \<Rightarrow> Score \<Rightarrow> string" where
  "guess_text guess_no solution score =
     ''Guess #'' @ str_int (int guess_no) @ '': '' @ format_code solution @
     ''  Clue: '' @ format_clue score"

definition failure_text :: string where
  "failure_text = ''Couldn't find an answer :(''"

fun render_line :: "out_line \<Rightarrow> string" where
  "render_line (Game_line number code) = game_text number code"
| "render_line (Guess_line guess_no solution score) = guess_text guess_no solution score"
| "render_line Failure_line = failure_text"

text \<open>\<open>print\<close> writes its argument and a newline.\<close>

definition NL :: char where
  "NL = CHR 0x0A"

definition stdout :: "out_line list \<Rightarrow> string" where
  "stdout lines = concat (map (\<lambda>l. render_line l @ [NL]) lines)"

section \<open>Reading the output back\<close>

fun split_lines :: "string \<Rightarrow> string \<Rightarrow> string list" where
  "split_lines cur [] = (if cur = [] then [] else [cur])"
| "split_lines cur (c # s) = (if c = NL then cur # split_lines [] s else split_lines (cur @ [c]) s)"

definition decode_line :: "string \<Rightarrow> out_line option" where
  "decode_line s =
     (if s = failure_text then Some Failure_line
      else case chop ''Game number '' s of
        Some r \<Rightarrow> do {
          (number, r) \<leftarrow> parse_nat r;
          r \<leftarrow> chop '', Selected code is '' r;
          (code, r) \<leftarrow> decode_code r;
          if r = [] then Some (Game_line number code) else None }
      | None \<Rightarrow> do {
          r \<leftarrow> chop ''Guess #'' s;
          (guess_no, r) \<leftarrow> parse_nat r;
          r \<leftarrow> chop '': '' r;
          (solution, r) \<leftarrow> decode_code r;
          r \<leftarrow> chop ''  Clue: '' r;
          (score, r) \<leftarrow> decode_clue r;
          if r = [] then Some (Guess_line guess_no solution score) else None })"

definition decode_stdout :: "string \<Rightarrow> out_line list option" where
  "decode_stdout s = those (map decode_line (split_lines [] s))"

lemma decode_line_render_line: "decode_line (render_line l) = Some l"
proof (cases l)
  case (Game_line number code)
  have "decode_code (format_code code @ []) = Some (code, [])"
    by (rule decode_code_format_code)
  then show ?thesis
    using Game_line
    by (simp add: decode_line_def game_text_def failure_text_def parse_nat_digits is_digit_def
        del: sgr_strings)
next
  case (Guess_line guess_no solution score)
  have "decode_clue (format_clue score @ []) = Some (score, [])"
    by (rule decode_clue_format_clue)
  then show ?thesis
    using Guess_line
    by (simp add: decode_line_def guess_text_def failure_text_def parse_nat_digits is_digit_def
        decode_code_format_code del: sgr_strings)
next
  case Failure_line
  then show ?thesis by (simp add: decode_line_def)
qed

lemma NL_not_digit: "\<not> is_digit NL"
  by (simp add: NL_def is_digit_def)

lemma NL_notin_str_int: "NL \<notin> set (str_int i)"
  using digits_all_digits NL_not_digit by (auto simp: str_int_def NL_def)

lemma NL_notin_sgr: "NL \<notin> set (sgr a)"
  by (cases a) (simp_all add: NL_def)

lemma NL_notin_format_code: "NL \<notin> set (format_code code)"
proof -
  have "NL \<notin> set (peg color)" for color
    by (cases color) (simp_all add: peg_def BULLET_def NL_def)
  then show ?thesis
    by (simp add: format_code_pegs NL_notin_sgr del: sgr_strings)
qed

lemma NL_notin_render_line: "NL \<notin> set (render_line l)"
  by (cases l)
     (simp_all add: game_text_def guess_text_def failure_text_def format_clue_def NL_notin_sgr
        NL_notin_format_code NL_notin_str_int del: sgr_strings str_int_nat, simp_all add: NL_def)

lemma split_lines_line:
  "NL \<notin> set l \<Longrightarrow> split_lines cur (l @ NL # rest) = (cur @ l) # split_lines [] rest"
  by (induction l arbitrary: cur) auto

lemma split_lines_stdout: "split_lines [] (stdout lines) = map render_line lines"
  by (induction lines) (simp_all add: stdout_def split_lines_line NL_notin_render_line)

lemma those_map_Some: "those (map Some xs) = Some xs"
  by (induction xs) simp_all

text \<open>
  C25: the text a run prints, lines and newlines, determines the run: decoding the output
  of any sequence of printed lines gives back that sequence, so the guesses, their
  numbers and their clues can be recovered from the terminal output.
\<close>

theorem decode_stdout_stdout: "decode_stdout (stdout lines) = Some lines"
  by (simp add: decode_stdout_def split_lines_stdout comp_def decode_line_render_line those_map_Some)

section \<open>Well-formed output\<close>

definition wf_code :: "Code \<Rightarrow> bool" where
  "wf_code code \<longleftrightarrow> distinct code \<and> length code = CODE_LEN"

fun wf_score :: "Score \<Rightarrow> bool" where
  "wf_score (Score correct almost) \<longleftrightarrow> 0 \<le> almost \<and> int correct + almost \<le> int CODE_LEN"

fun wf_line :: "out_line \<Rightarrow> bool" where
  "wf_line (Game_line number code) \<longleftrightarrow> 1 \<le> number \<and> number \<le> 1680 \<and> wf_code code"
| "wf_line (Guess_line guess_no solution score) \<longleftrightarrow>
     1 \<le> guess_no \<and> guess_no \<le> MAX_TRIES \<and> wf_code solution \<and> wf_score score"
| "wf_line Failure_line \<longleftrightarrow> True"

lemma wf_score_score_guess: "length guess = CODE_LEN \<Longrightarrow> wf_score (score_guess guess answer)"
  using score_guess_range [of guess answer] by (cases "score_guess guess answer") simp

lemma wf_code_candidate: "c \<in> set all_possible_solutions \<Longrightarrow> wf_code c"
  by (simp add: wf_code_def set_all_possible_solutions)

lemma solve_lines_wf: "list_all wf_line (printed (snd (solve answer)))"
proof -
  obtain r st where run: "solve answer = (r, st)" by fastforce
  note facts = solve_run [OF run]
  have cand: "wf_code c" if "c \<in> set (promoted (clues st) r)" for c
    using promoted_candidate [OF run that] by (rule wf_code_candidate)
  have len: "length (promoted (clues st) r) \<le> MAX_TRIES" using facts by simp
  have clue: "wf_line (Guess_line i c s)" if "(i, c, s) \<in> set (enumerate 1 (clues st))" for i c s
  proof -
    have i: "1 \<le> i" "i \<le> length (clues st)" and cs: "clues st ! (i - 1) = (c, s)"
      using that by (auto simp: in_set_enumerate_eq)
    have "i - 1 < length (clues st)" using i by simp
    then have mem: "(c, s) \<in> set (clues st)" using cs by (metis nth_mem)
    then have "c \<in> set (promoted (clues st) r)" by (force simp: promoted_def)
    moreover have "s = score_guess c answer"
      using facts mem by (auto simp: scored_against_def list_all_iff)
    moreover have "length (clues st) \<le> MAX_TRIES" using len by (simp add: promoted_def)
    ultimately show ?thesis
      using i cand wf_score_score_guess by (auto simp: wf_code_def)
  qed
  have last: "wf_line (last_line answer (clues st) r)"
  proof (cases r)
    case (Some s)
    then have "s \<in> set (promoted (clues st) r)" by (simp add: promoted_def)
    with Some len show ?thesis
      using cand wf_score_score_guess by (auto simp: last_line_def promoted_def wf_code_def)
  qed (simp add: last_line_def)
  show ?thesis
    using facts run clue last by (auto simp: guess_lines_def list_all_iff)
qed

text \<open>
  C26: every line the script prints is well formed: games numbered 1 to 1680, guesses
  numbered 1 to \<open>MAX_TRIES\<close>, codes of \<open>CODE_LEN\<close> distinct colours, and clues whose two
  counts are non-negative and add up to at most \<open>CODE_LEN\<close>.
\<close>

theorem run_script_wf: "list_all wf_line run_script"
proof -
  have "wf_line (Game_line n c)" if "(n, c) \<in> set (enumerate 1 all_possible_solutions)" for n c
    using that by (auto simp: in_set_enumerate_eq length_all_possible_solutions
        intro!: wf_code_candidate)
  then show ?thesis
    using solve_lines_wf by (auto simp: run_script_def list_all_iff)
qed

end
