(* ===== verification/Cost.thy ===== *)
theory Cost
  imports Strategy
begin

text \<open>
  The work a game of \<open>solve\<close> (\<open>src/mastermind.py\<close>, lines 70--86) does, counted along
  the same steps as \<open>solve_loop\<close>: \<open>matches_evals\<close> is the number of calls of
  \<open>score_guess\<close> that \<open>solution_matches_clues\<close> (lines 63--67) makes before it returns,
  \<open>body_evals\<close> adds the call that scores a promoted candidate (line 76), \<open>loop_evals\<close>
  sums them over the iterations of the \<open>for\<close> loop up to its \<open>return\<close> or \<open>break\<close>, and
  \<open>loop_steps\<close> counts those iterations. The lemmas bound the calls of every game, show
  that the spec's bound of 1680 calls per game is exceeded, and show that for every
  enumerated secret the loop stops exactly when the scan reaches the secret.
\<close>

section \<open>Counting the scoring calls and the iterations\<close>

fun matches_evals :: "Code \<Rightarrow> Clue list \<Rightarrow> nat" where
  "matches_evals guess [] = 0"
| "matches_evals guess ((clue, score) # rest) =
     Suc (if score \<noteq> score_guess guess clue then 0 else matches_evals guess rest)"

definition body_evals :: "Code \<Rightarrow> Code \<Rightarrow> solver_state \<Rightarrow> nat" where
  "body_evals answer solution st =
     matches_evals solution (clues st) +
     (if solution_matches_clues solution (clues st) then 1 else 0)"

fun loop_evals :: "Code \<Rightarrow> Code list \<Rightarrow> solver_state \<Rightarrow> nat" where
  "loop_evals answer [] st = 0"
| "loop_evals answer (solution # solutions) st =
     body_evals answer solution st +
     (case solve_body answer solution st of
        Return s st' \<Rightarrow> 0
      | Next st' \<Rightarrow> if length (clues st') = MAX_TRIES then 0 else loop_evals answer solutions st')"

definition solve_evals :: "Code \<Rightarrow> nat" where
  "solve_evals answer = loop_evals answer all_possible_solutions solve_init"

fun loop_steps :: "Code \<Rightarrow> Code list \<Rightarrow> solver_state \<Rightarrow> nat" where
  "loop_steps answer [] st = 0"
| "loop_steps answer (solution # solutions) st =
     Suc (case solve_body answer solution st of
            Return s st' \<Rightarrow> 0
          | Next st' \<Rightarrow> if length (clues st') = MAX_TRIES then 0 else loop_steps answer solutions st')"

definition solve_steps :: "Code \<Rightarrow> nat" where
  "solve_steps answer = loop_steps answer all_possible_solutions solve_init"

section \<open>Bounds\<close>

lemma matches_evals_le: "matches_evals guess cs \<le> length cs"
  by (induction guess cs rule: matches_evals.induct) auto

lemma loop_evals_bound:
  "length (clues st) < MAX_TRIES \<Longrightarrow>
   loop_evals answer cands st \<le> 11 * length cands + (MAX_TRIES - length (clues st))"
proof (induction cands arbitrary: st)
  case Nil
  then show ?case by simp
next
  case (Cons s ss st)
  have body: "body_evals answer s st \<le> 11 + (if solution_matches_clues s (clues st) then 1 else 0)"
    using matches_evals_le [of s "clues st"] Cons.prems by (simp add: body_evals_def MAX_TRIES_def)
  show ?case
  proof (cases rule: solve_body_cases [of s st answer])
    case skip
    then have "loop_evals answer (s # ss) st = body_evals answer s st + loop_evals answer ss st"
      using Cons.prems by simp
    with body skip Cons.IH [OF Cons.prems] show ?thesis by simp
  next
    case found
    with body Cons.prems show ?thesis by simp
  next
    case clue
    then obtain st' where nx: "solve_body answer s st = Next st'"
      and cl: "length (clues st') = Suc (length (clues st))"
      by simp
    show ?thesis
    proof (cases "length (clues st') = MAX_TRIES")
      case True
      with nx body clue Cons.prems show ?thesis by simp
    next
      case False
      with cl Cons.prems have "length (clues st') < MAX_TRIES" by simp
      note IH = Cons.IH [OF this]
      from False nx have "loop_evals answer (s # ss) st = body_evals answer s st + loop_evals answer ss st'"
        by simp
      with IH body clue cl Cons.prems show ?thesis by simp
    qed
  qed
qed

section \<open>Where the loop stops\<close>

lemma solve_loop_result_mem:
  assumes "fst (solve_loop answer cands st) = Some x"
  shows "x \<in> set cands"
proof -
  obtain st' where "solve_loop answer cands st = (Some x, st')"
    using assms by (cases "solve_loop answer cands st") auto
  then obtain new where "subseq (promoted new (Some x)) cands"
    by (blast dest: solve_loop_promoted)
  then show ?thesis by (auto simp: promoted_def dest: list_emb_set)
qed

lemma loop_steps_at_answer:
  "fst (solve_loop answer cands st) = Some answer \<Longrightarrow> distinct cands \<Longrightarrow>
   loop_steps answer cands st = Suc (length (takeWhile (\<lambda>c. c \<noteq> answer) cands))"
proof (induction cands arbitrary: st)
  case Nil
  then show ?case by simp
next
  case (Cons s ss st)
  show ?case
  proof (cases rule: solve_body_cases [of s st answer])
    case found
    with Cons.prems(1) show ?thesis by simp
  next
    case skip
    with Cons.prems(1) have run: "fst (solve_loop answer ss st) = Some answer"
      and steps: "loop_steps answer (s # ss) st = Suc (loop_steps answer ss st)"
      by (simp_all split: if_splits)
    have "s \<noteq> answer" using Cons.prems(2) solve_loop_result_mem [OF run] by auto
    with Cons.IH [OF run] Cons.prems(2) steps show ?thesis by simp
  next
    case clue
    then obtain st' where nx: "solve_body answer s st = Next st'" by simp
    with Cons.prems(1) have run: "fst (solve_loop answer ss st') = Some answer"
      and steps: "loop_steps answer (s # ss) st = Suc (loop_steps answer ss st')"
      by (simp_all split: if_splits)
    have "s \<noteq> answer" using Cons.prems(2) solve_loop_result_mem [OF run] by auto
    with Cons.IH [OF run] Cons.prems(2) steps show ?thesis by simp
  qed
qed

section \<open>Properties\<close>

text \<open>
  C27: every game makes at most \<open>11 * 1680 + MAX_TRIES\<close> calls of \<open>score_guess\<close>: at most
  one per recorded clue for each candidate (never more than 11 clues when a candidate is
  tested), and one more for each of the at most \<open>MAX_TRIES\<close> promoted candidates.
\<close>

theorem solve_evals_bound: "solve_evals answer \<le> 11 * 1680 + MAX_TRIES"
  using loop_evals_bound [of solve_init answer all_possible_solutions]
  by (simp add: solve_evals_def solve_init_def length_all_possible_solutions MAX_TRIES_def)

text \<open>
  The spec's bound of at most 1680 scoring evaluations per game does not hold: the
  game for the secret \<open>[GREY, PINK, RED, BLUE]\<close> calls \<open>score_guess\<close> 1715 times, since
  the filter scores every candidate against the recorded clues.
\<close>

lemma solve_evals_exceeds_1680: "solve_evals [GREY, PINK, RED, BLUE] = 1715"
  by code_simp

text \<open>
  C28: for every enumerated secret the loop ends exactly when the scan reaches the
  secret: the number of iterations is the secret's position in the enumeration, counted
  from 1, so at most 1680, and no candidate after the secret is examined.
\<close>

theorem solve_steps_secret:
  assumes "answer \<in> set all_possible_solutions"
  shows "solve_steps answer = Suc (length (takeWhile (\<lambda>c. c \<noteq> answer) all_possible_solutions))"
  using loop_steps_at_answer [of answer all_possible_solutions solve_init]
    solve_finds_secret [OF assms] distinct_all_possible_solutions
  by (simp add: solve_steps_def solve_def)

theorem solve_steps_secret_witness:
  "[RED, GREEN, BLUE, WHITE] \<in> set all_possible_solutions \<and>
   solve_steps [RED, GREEN, BLUE, WHITE] = 2"
proof -
  have mem: "[RED, GREEN, BLUE, WHITE] \<in> set all_possible_solutions"
    by (simp add: set_all_possible_solutions CODE_LEN_def)
  have pos: "length (takeWhile (\<lambda>c. c \<noteq> [RED, GREEN, BLUE, WHITE]) all_possible_solutions) = 1"
    by code_simp
  show ?thesis
    using solve_steps_secret [OF mem] mem pos by simp
qed

end
