(* ===== verification/Classic.thy ===== *)
theory Classic
  imports Solver
begin

text \<open>
  The solver with the scoring function as a parameter. \<open>matches_with\<close>,
  \<open>body_with\<close>, \<open>loop_with\<close> and \<open>solve_with\<close> are \<open>solution_matches_clues\<close>,
  \<open>solve_body\<close>, \<open>solve_loop\<close> and \<open>solve\<close> of \<open>src/mastermind.py\<close> (lines 63--86)
  with every call of \<open>score_guess\<close> replaced by a call of the parameter. With
  \<open>score_guess\<close> they are the program's solver; with the classic score
  \<open>mastermind_score\<close> (Scoring) they are the solver the spec describes. The lemmas show
  that a run depends on the scoring function only through the scores of the candidates
  it scans, so the two solvers play the same games for every secret: the over-counting of
  repeated colours in \<open>score_guess\<close> never shows in a game.
\<close>

type_synonym scorer = "Code \<Rightarrow> Code \<Rightarrow> Score"

fun matches_with :: "scorer \<Rightarrow> Code \<Rightarrow> Clue list \<Rightarrow> bool" where
  "matches_with sc guess [] = True"
| "matches_with sc guess ((clue, score) # rest) =
     (if score \<noteq> sc guess clue then False else matches_with sc guess rest)"

definition body_with :: "scorer \<Rightarrow> Code \<Rightarrow> Code \<Rightarrow> solver_state \<Rightarrow> body_exit" where
  "body_with sc answer solution st =
     (if matches_with sc solution (clues st) then
        (let score = sc solution answer;
             st = st\<lparr>printed := printed st @ [Guess_line (guess_num st) solution score]\<rparr>
         in if num_correct score = CODE_LEN then Return solution st
            else Next (st\<lparr>clues := clues st @ [(solution, score)],
                          guess_num := guess_num st + 1\<rparr>))
      else Next st)"

fun loop_with :: "scorer \<Rightarrow> Code \<Rightarrow> Code list \<Rightarrow> solver_state \<Rightarrow> Code option \<times> solver_state" where
  "loop_with sc answer [] st = (None, report_failure st)"
| "loop_with sc answer (solution # solutions) st =
     (case body_with sc answer solution st of
        Return s st' \<Rightarrow> (Some s, st')
      | Next st' \<Rightarrow>
          if length (clues st') = MAX_TRIES then (None, report_failure st')
          else loop_with sc answer solutions st')"

definition solve_with :: "scorer \<Rightarrow> Code \<Rightarrow> Code option \<times> solver_state" where
  "solve_with sc answer = loop_with sc answer all_possible_solutions solve_init"

section \<open>The program's solver is the instance with \<open>score_guess\<close>\<close>

lemma matches_with_score_guess: "matches_with score_guess guess cs = solution_matches_clues guess cs"
  by (induction score_guess guess cs rule: matches_with.induct) simp_all

lemma body_with_score_guess: "body_with score_guess answer s st = solve_body answer s st"
  by (simp add: body_with_def solve_body_def matches_with_score_guess)

lemma loop_with_score_guess: "loop_with score_guess answer cands st = solve_loop answer cands st"
  by (induction cands arbitrary: st) (simp_all add: body_with_score_guess split: body_exit.split)

section \<open>A run depends only on the scores of the scanned candidates\<close>

lemma matches_with_cong:
  "(\<And>x. sc1 c x = sc2 c x) \<Longrightarrow> matches_with sc1 c cs = matches_with sc2 c cs"
  by (induction sc1 c cs rule: matches_with.induct) simp_all

lemma body_with_cong:
  "(\<And>x. sc1 c x = sc2 c x) \<Longrightarrow> body_with sc1 answer c st = body_with sc2 answer c st"
  using matches_with_cong [of sc1 c sc2 "clues st"] by (simp add: body_with_def)

lemma loop_with_cong:
  "(\<And>c x. c \<in> set cands \<Longrightarrow> sc1 c x = sc2 c x) \<Longrightarrow>
   loop_with sc1 answer cands st = loop_with sc2 answer cands st"
proof (induction cands arbitrary: st)
  case Nil
  then show ?case by simp
next
  case (Cons c cs st)
  have "body_with sc1 answer c st = body_with sc2 answer c st"
    using Cons.prems by (intro body_with_cong) simp
  with Cons show ?case by (simp split: body_exit.split)
qed

text \<open>
  C31: the solver played with the classic Mastermind score, which counts repeated colours
  by multiplicity, and the program's solver play the same game, with the same result,
  clues and printed lines, for every secret: all scored guesses are enumerated codes,
  which repeat no colour, and on those the two scores agree.
\<close>

theorem solve_classic_score: "solve_with mastermind_score answer = solve answer"
proof -
  have "mastermind_score c x = score_guess c x" if "c \<in> set all_possible_solutions" for c x
    using that by (simp add: set_all_possible_solutions score_guess_eq_mastermind_score)
  then have "loop_with mastermind_score answer all_possible_solutions solve_init =
             loop_with score_guess answer all_possible_solutions solve_init"
    by (rule loop_with_cong)
  then show ?thesis
    by (simp add: solve_with_def solve_def loop_with_score_guess)
qed

end
