(* ===== verification/Spec2Isabelle.thy ===== *)
theory Spec2Isabelle
  imports Driver Solver_Spec Strategy Output Cost Classic
begin

text \<open>
  \<^bold>\<open>Verification of atcase/mastermind.\<close>
  The repository is one Python file, \<open>src/mastermind.py\<close>: a brute-force solver for
  Mastermind with 8 colours, codes of \<open>CODE_LEN = 4\<close> pegs and at most
  \<open>MAX_TRIES = 12\<close> clues per game. Its parts, leaves first:
  \<^item> the data model (lines 8--14): the enumeration \<open>Colors\<close>, the named tuple
    \<open>Score\<close>, codes as colour sequences and clues as (code, score) pairs;
  \<^item> the scoring function \<open>score_guess\<close> (lines 53--56);
  \<^item> the candidate enumerator \<open>all_possible_solutions\<close> (lines 59--60), which calls
    the library function \<open>itertools.permutations\<close>;
  \<^item> the clue filter \<open>solution_matches_clues\<close> (lines 63--67), which calls the scoring
    function against every recorded clue;
  \<^item> the solver loop \<open>solve\<close> (lines 70--86): it walks the enumeration, promotes each
    candidate that passes the filter to a guess, scores it against the secret, prints it,
    returns on a full match and otherwise records a clue, and stops after
    \<open>MAX_TRIES\<close> clues or when the candidates run out;
  \<^item> the top-level script (lines 89--92), which plays one game per enumerated code;
  \<^item> \<open>create_code\<close> (lines 17--20), a random secret, called only from a commented-out
    line;
  \<^item> the formatters \<open>format_code\<close> and \<open>format_clue\<close> (lines 23--50), which colour
    the printed lines.

  \<^bold>\<open>Theories.\<close>
  \<^item> \<open>Prelude\<close>: the collections \<open>model_defs\<close> (the definitions to unfold for
    evaluation) and \<open>state_inv\<close> (the solver invariant's preservation facts), and the
    list facts the components share: \<open>count_list\<close> of a boolean map, the position-wise
    agreement count \<open>agree_count\<close> read through \<open>zip\<close>, membership counts of
    repetition-free lists, distinctness and lexicographic order of concatenated blocks,
    distinctness of subsequences.
  \<^item> \<open>Data_Model\<close>: \<open>CODE_LEN\<close>, \<open>MAX_TRIES\<close>, the datatype \<open>Colors\<close> with
    its iteration order \<open>Colors_enum\<close> and its values \<open>color_value\<close>, which give the
    instance of \<open>linorder\<close> (and \<open>finite\<close>) so that the library's lexicographic
    order on lists applies to codes; \<open>Score\<close> as a datatype with the two selectors.
  \<^item> \<open>Scoring\<close>: \<open>score_guess\<close> as written (a comprehension counted with
    \<open>count_list\<close>, Python's \<open>zip\<close> and int subtraction), and the reference score
    \<open>mastermind_score\<close> with per-colour minimum counts, the multiplicity-aware
    algorithm the spec names.
  \<^item> \<open>Enumeration\<close>: \<open>itertools.permutations\<close> as \<open>permutations\<close> over
    \<open>select\<close> (modelled from the library's documentation: positional choice, output in
    lexicographic order of positions, empty when the length exceeds the pool) and
    \<open>all_possible_solutions\<close>.
  \<^item> \<open>Clues\<close>: \<open>solution_matches_clues\<close> as an early-return recursion.
  \<^item> \<open>Solver\<close>: the record \<open>solver_state\<close> (clue list, guess counter, printed lines),
    the printed lines \<open>out_line\<close> (the data each \<open>print\<close> renders), one loop
    iteration \<open>solve_body\<close> that returns (\<open>Return\<close>) or continues (\<open>Next\<close>),
    the loop \<open>solve_loop\<close> with the \<open>MAX_TRIES\<close> test after every candidate and the
    failure print, and \<open>solve\<close>.
  \<^item> \<open>Driver\<close>: the script as \<open>run_script\<close> (its whole output), and
    \<open>create_code\<close> with the shuffle as a parameter.
  \<^item> \<open>Solver_Spec\<close>: the solver state machine of the spec (section 4.4) as the
    \<^theory_text>\<open>inductive\<close> relation \<open>game_step\<close> over the record \<open>game\<close> (phase,
    remaining candidates, clue history, code found): the abstract contract that
    \<open>solve_loop\<close> is proved to refine.
  \<^item> \<open>Strategy\<close>: the loop's choice of guesses as a strategy \<open>strat\<close> that keeps
    the candidates consistent with the clues so far and plays the first of them (the
    whole game is \<open>strat\<close> on the enumeration, C2), and a decision-tree check
    \<open>solves_within d A\<close>: playing the first code of \<open>A\<close> and splitting the rest by
    its score leaves classes each solvable within \<open>d - 1\<close> guesses. It is proved
    sound for \<open>strat\<close> and evaluated on the enumeration with depth 7.
  \<^item> \<open>Formatter\<close>: \<open>format_code\<close> with its colour table \<open>color_lookup\<close>, and
    \<open>format_clue\<close>, on byte strings (the bullet as its UTF-8 bytes), over Python's
    \<open>str\<close> on integers (\<open>str_int\<close>) and colorama's escape sequences (\<open>sgr\<close>), both
    modelled from their documentation; decoders that read each rendering back.
  \<^item> \<open>Output\<close>: the text of the three \<open>print\<close> calls (\<open>guess_text\<close>, line 77;
    \<open>failure_text\<close>, line 85; \<open>game_text\<close>, line 91) for the recorded lines, the
    standard output \<open>stdout\<close> of a sequence of lines, its decoder, and well-formed lines.
  \<^item> \<open>Cost\<close>: counters that follow \<open>solve_loop\<close> step by step: the calls of
    \<open>score_guess\<close> a game makes (\<open>solve_evals\<close>) and its loop iterations
    (\<open>solve_steps\<close>).
  \<^item> \<open>Classic\<close>: the solver with the scoring function as a parameter
    (\<open>solve_with\<close>), which is \<open>solve\<close> with \<open>score_guess\<close> and the spec's solver with
    the classic score \<open>mastermind_score\<close>.
  \<^item> \<open>Spec2Isabelle\<close> (this theory): the properties that need scoring, enumeration and
    the loop together.

  \<^bold>\<open>What is proved.\<close>
  Scoring: the exact count is the number of agreeing positions (C13); both counts are
  bounded and their sum is the number of guess pegs present in the answer (C14); a code
  scores \<open>(len, 0)\<close> against itself, repeated colours included (C15); the score is
  symmetric on codes without repeated colours (C12); disjoint codes score \<open>(0, 0)\<close>
  (C22); it equals the classic score whenever the guess repeats no colour (C11, a
  functional refinement), and exactly when no colour of the answer occurs more often in
  the guess than in the answer (C20), so extra copies in the guess are over-counted.
  Enumeration: exactly the 1680 repetition-free codes, each once (C17), in the order of
  the sorted list of them (C18).
  Filter: the loop decides the quantified condition (C16).
  Solver: the invariant \<open>solver_inv\<close> (clues scored against the secret and never a full
  match, every promoted guess consistent with the clues before it, counter one more than
  the clue count, printed lines the numbered guess lines) holds initially and every
  iteration keeps it; from it: at most \<open>MAX_TRIES\<close> promoted guesses (C7), every guess
  consistent with its history (C8), the exact transcript of a game (C9), guesses in
  enumeration order and never repeated (C10).
  Spec machine: the state machine of the spec is deterministic, its reachable states
  satisfy an invariant proved by rule induction, and \<open>solve\<close> refines it (C6): its
  result and clue list are those of a terminal state of the machine.
  Main result: every enumerated code, taken as the secret, is found, and the game
  promotes at most 7 guesses (C1), through the strategy \<open>solve\<close> plays (C2); so the
  outcome \<open>EXHAUSTED\<close> of the spec never happens for the script's secrets.
  Across components: the secret, when it is an enumerated code, never fails the filter
  (C4), so a game never runs out of candidates: it returns the secret or stops with
  exactly \<open>MAX_TRIES\<close> clues (C3); a returned code is the secret (C5) for secrets of
  length \<open>CODE_LEN\<close>, and the secret's first \<open>CODE_LEN\<close> pegs for longer ones, since
  \<open>solve\<close> does not check its argument (C21).
  Driver: \<open>create_code\<close> always yields an enumerated code (C19).
  Formatter and output: \<open>format_code\<close> and \<open>format_clue\<close> are injective, by their
  decoders (C23, C24); the standard output of any sequence of lines decodes back to it
  (C25); every line the script prints is well formed (C26).
  Cost: a game calls \<open>score_guess\<close> at most \<open>11 * 1680 + 12\<close> times (C27), and for the
  secret \<open>[GREY, PINK, RED, BLUE]\<close> 1715 times, more than the 1680 the spec states
  (a computed lemma of Cost, recorded as a finding); for every enumerated secret the
  loop stops when the scan reaches the secret, after as many iterations as the secret's
  position in the enumeration (C28).
  Script and errors: the whole output of the script, game by game, ends every game with
  the secret scored as a full match (C29), so the script never prints the failure notice
  (C30); the solver played with the classic score plays the same games for every secret,
  so the over-counting of repeated colours in \<open>score_guess\<close> never shows (C31); a secret
  that is too short or repeats a colour is never found and ends with the failure notice
  (C32).

  \<^bold>\<open>Loops, bounds and evaluation.\<close>
  Every loop of the program runs over a finite list (the clues, the candidates, the
  games) or recurses on the tuple length, so each is a structural \<^theory_text>\<open>fun\<close> or a
  definition over \<open>map\<close> and \<open>concat\<close>; no fuel is needed and termination is by
  construction. All definitions are executable; concrete games are evaluated in the
  kernel with \<open>code_simp\<close> (a two-guess game takes a few seconds, the 7-guess game of
  C1's witness under a minute). Running \<open>solve\<close> on all 1680 secrets in the kernel
  costs far more (the later games filter long stretches of the enumeration), so C1 is
  proved instead through C2 and the tree check: \<open>solves_within 7\<close> on the
  enumeration is split into the blocks of codes with the same first colour and into
  the 14 score classes of the first guess, each evaluated by \<open>code_simp\<close> on lists of
  at most a few hundred codes; the depth 7 is the smallest that passes, the 12 of
  \<open>MAX_TRIES\<close> leaves the test on the clue count unreached.

  \<^bold>\<open>Not modelled.\<close>
  The import statements (lines 1--6), which bind library names and have no behaviour of
  their own; the libraries they bind are modelled where the code calls them
  (\<open>itertools.permutations\<close>, \<open>str\<close>, colorama's constants, \<open>random.shuffle\<close> as a
  parameter). The terminal's interpretation of the escape sequences (the model stops at
  the bytes written); the randomness of \<open>random.shuffle\<close> (a parameter:
  any permutation); the result of \<open>solve\<close> in the script, which is assigned and never
  read.

  \<^bold>\<open>Plan for further work.\<close>
  The exact maximum of scoring calls over all games (2347 by an informal count), which
  needs the cost of all 1680 games evaluated in the kernel.
\<close>

section \<open>Properties that span scoring, enumeration and the solver loop\<close>

text \<open>
  C1: every one of the 1680 codes, taken as the secret, is found, within at most 7
  guesses (the spec asks for 12); the bound is attained, by \<open>[RED, CYAN, PINK, BLUE]\<close>.
\<close>

theorem solve_finds_every_secret:
  assumes "answer \<in> set all_possible_solutions"
  shows "fst (solve answer) = Some answer \<and>
         length (promoted (clues (snd (solve answer))) (fst (solve answer))) \<le> 7"
  using solve_finds_secret [OF assms] by (simp add: promoted_def)

theorem solve_finds_every_secret_witness:
  "[RED, CYAN, PINK, BLUE] \<in> set all_possible_solutions \<and>
   fst (solve [RED, CYAN, PINK, BLUE]) = Some [RED, CYAN, PINK, BLUE] \<and>
   length (promoted (clues (snd (solve [RED, CYAN, PINK, BLUE]))) (fst (solve [RED, CYAN, PINK, BLUE]))) = 7"
proof -
  have mem: "[RED, CYAN, PINK, BLUE] \<in> set all_possible_solutions"
    by (simp add: set_all_possible_solutions CODE_LEN_def)
  have seven: "case solve [RED, CYAN, PINK, BLUE] of (r, st) \<Rightarrow> length (promoted (clues st) r) = 7"
    by code_simp
  from solve_finds_every_secret [OF mem] seven mem show ?thesis
    by (simp split: prod.splits)
qed

text \<open>
  A run of the loop from a state whose clues the answer reproduces, over candidates of
  four distinct colours among which the answer occurs, either returns the answer or
  stops with \<open>MAX_TRIES\<close> clues: the answer is never filtered out, since the score is
  symmetric on codes without repeated colours.
\<close>

lemma solve_loop_finds_answer:
  assumes "answer \<in> set cands" and "distinct answer" and "length answer = CODE_LEN"
    and "\<forall>c \<in> set cands. distinct c \<and> length c = CODE_LEN"
    and "solution_matches_clues answer (clues st)" and "length (clues st) < MAX_TRIES"
  shows "fst (solve_loop answer cands st) = Some answer \<or>
         length (clues (snd (solve_loop answer cands st))) = MAX_TRIES"
  using assms
proof (induction cands arbitrary: st)
  case Nil
  then show ?case by simp
next
  case (Cons s ss st)
  have s: "distinct s" "length s = CODE_LEN" using Cons.prems(4) by auto
  show ?case
  proof (cases rule: solve_body_cases [of s st answer])
    case skip
    have eq: "solve_loop answer (s # ss) st = solve_loop answer ss st"
      using skip Cons.prems(6) by simp
    from skip Cons.prems(5) have "s \<noteq> answer" by auto
    with Cons.prems have "answer \<in> set ss" by simp
    with Cons.prems show ?thesis unfolding eq by (intro Cons.IH) auto
  next
    case found
    with s Cons.prems(3) have "s = answer"
      using score_guess_full_match [of s answer] by simp
    with found show ?thesis by simp
  next
    case clue
    then obtain st' where nx: "solve_body answer s st = Next st'"
      and cl: "clues st' = clues st @ [(s, score_guess s answer)]"
      by simp
    from clue Cons.prems(3) have "s \<noteq> answer" by auto
    with Cons.prems(1) have a: "answer \<in> set ss" by simp
    have "score_guess answer s = score_guess s answer"
      using s Cons.prems(2) by (simp add: score_guess_commute)
    with cl Cons.prems(5) have m: "solution_matches_clues answer (clues st')" by simp
    show ?thesis
    proof (cases "length (clues st') = MAX_TRIES")
      case True
      with nx show ?thesis by simp
    next
      case False
      with nx have eq: "solve_loop answer (s # ss) st = solve_loop answer ss st'" by simp
      from False cl Cons.prems(6) have "length (clues st') < MAX_TRIES" by simp
      with a m Cons.prems show ?thesis unfolding eq by (intro Cons.IH) auto
    qed
  qed
qed

text \<open>
  C4: the hidden answer, when it is one of the enumerated codes, reproduces every clue the
  game records: the consistency filter never discards the true target.
\<close>

theorem solve_keeps_answer_consistent:
  assumes "answer \<in> set all_possible_solutions"
  shows "solution_matches_clues answer (clues (snd (solve answer)))"
proof -
  obtain r st where run: "solve answer = (r, st)" by fastforce
  have "score_guess answer c = s" if "(c, s) \<in> set (clues st)" for c s
  proof -
    have "c \<in> set all_possible_solutions"
      using that by (intro promoted_candidate [OF run]) (force simp: promoted_def)
    moreover have "s = score_guess c answer"
      using solve_run [OF run] that by (auto simp: scored_against_def list_all_iff)
    ultimately show ?thesis
      using assms by (simp add: set_all_possible_solutions score_guess_commute)
  qed
  then show ?thesis
    using run by (auto simp: solution_matches_clues_consistent_with consistent_with_def
        list_all_iff)
qed

theorem solve_keeps_answer_consistent_witness:
  "[GREEN, RED, BLUE, YELLOW] \<in> set all_possible_solutions \<and>
   solution_matches_clues [GREEN, RED, BLUE, YELLOW] (clues (snd (solve [GREEN, RED, BLUE, YELLOW])))"
proof -
  have "[GREEN, RED, BLUE, YELLOW] \<in> set all_possible_solutions"
    by (simp add: set_all_possible_solutions CODE_LEN_def)
  then show ?thesis using solve_keeps_answer_consistent by blast
qed

text \<open>
  C3: for every one of the 1680 enumerated codes as hidden answer, the game never runs out
  of candidates: it either finds the answer or stops after \<open>MAX_TRIES\<close> clues.
\<close>

theorem solve_never_depletes:
  assumes "answer \<in> set all_possible_solutions"
  shows "fst (solve answer) = Some answer \<or> length (clues (snd (solve answer))) = MAX_TRIES"
proof -
  have "distinct answer" "length answer = CODE_LEN"
    using assms by (simp_all add: set_all_possible_solutions)
  with assms show ?thesis
    unfolding solve_def
    by (intro solve_loop_finds_answer)
       (auto simp: set_all_possible_solutions solve_init_def MAX_TRIES_def)
qed

theorem solve_never_depletes_witness:
  "[RED, GREEN, YELLOW, BLUE] \<in> set all_possible_solutions \<and>
   (fst (solve [RED, GREEN, YELLOW, BLUE]) = Some [RED, GREEN, YELLOW, BLUE] \<or>
    length (clues (snd (solve [RED, GREEN, YELLOW, BLUE]))) = MAX_TRIES)"
proof -
  have "[RED, GREEN, YELLOW, BLUE] \<in> set all_possible_solutions"
    by (simp add: set_all_possible_solutions CODE_LEN_def)
  then show ?thesis using solve_never_depletes by blast
qed

text \<open>
  C5: a code the solver returns is the hidden answer, for every answer of length
  \<open>CODE_LEN\<close>.
\<close>

theorem solve_found_is_answer:
  assumes "length answer = CODE_LEN" and "fst (solve answer) = Some s"
  shows "s = answer"
proof -
  obtain st where run: "solve answer = (Some s, st)"
    using assms(2) by (cases "solve answer") auto
  have "s \<in> set all_possible_solutions"
    by (rule promoted_candidate [OF run]) (simp add: promoted_def)
  then have "length s = CODE_LEN" by (simp add: set_all_possible_solutions)
  with solve_found [OF run] assms(1) show ?thesis
    using score_guess_full_match [of s answer] by simp
qed

theorem solve_found_is_answer_witness:
  "length [RED, GREEN, YELLOW, BLUE] = CODE_LEN \<and>
   fst (solve [RED, GREEN, YELLOW, BLUE]) = Some [RED, GREEN, YELLOW, BLUE] \<and>
   [RED, GREEN, YELLOW, BLUE] = [RED, GREEN, YELLOW, BLUE]"
proof -
  have len: "length [RED, GREEN, YELLOW, BLUE] = CODE_LEN" by (simp add: CODE_LEN_def)
  have run: "fst (solve [RED, GREEN, YELLOW, BLUE]) = Some [RED, GREEN, YELLOW, BLUE]"
    by code_simp
  from solve_found_is_answer [OF len run] len run show ?thesis by simp
qed

text \<open>
  C21: \<open>solve\<close> does not check the length of the answer it is given. For an answer longer
  than \<open>CODE_LEN\<close>, a code it returns is the answer's first \<open>CODE_LEN\<close> pegs, since
  \<open>zip\<close> stops at the shorter code; that prefix is not the answer.
\<close>

theorem solve_long_answer_prefix:
  assumes "CODE_LEN \<le> length answer" and "fst (solve answer) = Some s"
  shows "s = take CODE_LEN answer"
proof -
  obtain st where run: "solve answer = (Some s, st)"
    using assms(2) by (cases "solve answer") auto
  have "s \<in> set all_possible_solutions"
    by (rule promoted_candidate [OF run]) (simp add: promoted_def)
  then have len: "length s = CODE_LEN" by (simp add: set_all_possible_solutions)
  have ag: "agree_count s answer = agree_count s (take CODE_LEN answer)"
    using agree_count_take [of s answer] len by simp
  have "num_correct (score_guess s (take CODE_LEN answer)) = CODE_LEN"
    using solve_found [OF run] ag by (simp add: score_guess_components)
  moreover have "length (take CODE_LEN answer) = CODE_LEN" using assms(1) by simp
  ultimately show ?thesis
    using len score_guess_full_match [of s "take CODE_LEN answer"] by simp
qed

theorem solve_long_answer_prefix_witness:
  "CODE_LEN \<le> length [RED, GREEN, BLUE, YELLOW, WHITE] \<and>
   fst (solve [RED, GREEN, BLUE, YELLOW, WHITE]) = Some [RED, GREEN, BLUE, YELLOW] \<and>
   [RED, GREEN, BLUE, YELLOW] = take CODE_LEN [RED, GREEN, BLUE, YELLOW, WHITE] \<and>
   [RED, GREEN, BLUE, YELLOW] \<noteq> [RED, GREEN, BLUE, YELLOW, WHITE]"
proof -
  have len: "CODE_LEN \<le> length [RED, GREEN, BLUE, YELLOW, WHITE]" by (simp add: CODE_LEN_def)
  have run: "fst (solve [RED, GREEN, BLUE, YELLOW, WHITE]) = Some [RED, GREEN, BLUE, YELLOW]"
    by code_simp
  from solve_long_answer_prefix [OF len run] len run show ?thesis by (simp add: CODE_LEN_def)
qed

section \<open>The script's games and invalid secrets\<close>

text \<open>
  Every game of the script ends with the secret, scored as a full match: the guess lines
  of its clues, then the secret itself.
\<close>

lemma solve_printed_secret:
  assumes "code \<in> set all_possible_solutions"
  shows "printed (snd (solve code)) =
           guess_lines (clues (snd (solve code))) @
           [Guess_line (Suc (length (clues (snd (solve code))))) code (Score CODE_LEN 0)]"
proof -
  obtain st where run: "solve code = (Some code, st)"
    using solve_finds_secret [OF assms] by (cases "solve code") auto
  have "length code = CODE_LEN" using assms by (simp add: set_all_possible_solutions)
  moreover have "present_count code code = length code" by simp
  ultimately have "score_guess code code = Score CODE_LEN 0" by (simp add: score_guess_Score)
  with solve_run [OF run] run show ?thesis by (simp add: last_line_def)
qed

text \<open>
  C29: the whole output of the script, game by game: the announcement of the game, the
  numbered guess lines of its clues, and the secret as the last guess with the clue
  \<open>CODE_LEN\<close> 0.
\<close>

theorem run_script_transcripts:
  "run_script =
     concat (map (\<lambda>(number, code).
         Game_line number code # guess_lines (clues (snd (solve code))) @
         [Guess_line (Suc (length (clues (snd (solve code))))) code (Score CODE_LEN 0)])
       (enumerate 1 all_possible_solutions))"
  unfolding run_script_def
proof (intro arg_cong [where f = concat] map_cong refl)
  fix p
  assume mem: "p \<in> set (enumerate 1 all_possible_solutions)"
  obtain number code where p: "p = (number, code)" by fastforce
  from mem have "code \<in> set all_possible_solutions" by (simp add: p in_set_enumerate_snd)
  then show "(case p of (number, code) \<Rightarrow> Game_line number code # printed (snd (solve code))) =
    (case p of (number, code) \<Rightarrow>
       Game_line number code # guess_lines (clues (snd (solve code))) @
       [Guess_line (Suc (length (clues (snd (solve code))))) code (Score CODE_LEN 0)])"
    by (simp add: p solve_printed_secret)
qed

text \<open>
  C30: the script never reports a failure: no game records the failure line, and the
  text \<open>Couldn't find an answer :(\<close> is not a line of its standard output.
\<close>

theorem run_script_never_fails:
  "Failure_line \<notin> set run_script \<and> failure_text \<notin> set (split_lines [] (stdout run_script))"
proof -
  have nf: "Failure_line \<notin> set run_script"
  proof
    assume "Failure_line \<in> set run_script"
    then obtain n c where game: "(n, c) \<in> set (enumerate 1 all_possible_solutions)"
      and "Failure_line \<in> set (printed (snd (solve c)))"
      by (auto simp: run_script_def)
    with solve_printed_secret [OF in_set_enumerate_snd [OF game]] show False
      by (auto simp: guess_lines_def)
  qed
  have fl: "l = Failure_line" if "render_line l = failure_text" for l
    using decode_line_render_line [of l] that by (simp add: decode_line_def)
  have "failure_text \<notin> set (map render_line run_script)"
  proof
    assume "failure_text \<in> set (map render_line run_script)"
    then obtain l where "l \<in> set run_script" "render_line l = failure_text" by auto
    with fl nf show False by blast
  qed
  with nf show ?thesis by (simp add: split_lines_stdout)
qed

text \<open>
  C32: a secret that is not an enumerated code and is not longer than \<open>CODE_LEN\<close> (too
  short, or with a repeated colour) is never found: \<open>solve\<close> returns \<open>None\<close> and its last
  printed line is the failure notice.
\<close>

theorem solve_invalid_answer:
  assumes "length answer \<le> CODE_LEN" and "answer \<notin> set all_possible_solutions"
  shows "fst (solve answer) = None \<and> last (printed (snd (solve answer))) = Failure_line"
proof -
  have none: "fst (solve answer) = None"
  proof (rule ccontr)
    assume "fst (solve answer) \<noteq> None"
    then obtain s st where run: "solve answer = (Some s, st)" by (cases "solve answer") auto
    have s: "s \<in> set all_possible_solutions"
      by (rule promoted_candidate [OF run]) (simp add: promoted_def)
    then have len: "length s = CODE_LEN" by (simp add: set_all_possible_solutions)
    have full: "num_correct (score_guess s answer) = CODE_LEN" using solve_found [OF run] by simp
    then have "CODE_LEN \<le> length answer"
      using agree_count_le_length [of s answer] by (simp add: score_guess_components)
    with assms(1) len have "length s = length answer" by simp
    with full len have "s = answer" using score_guess_full_match [of s answer] by simp
    with s assms(2) show False by simp
  qed
  then obtain st where run: "solve answer = (None, st)" by (cases "solve answer") auto
  with solve_run [OF run] show ?thesis by (simp add: last_line_def)
qed

theorem solve_invalid_answer_witness:
  "length [RED, RED, RED, RED] \<le> CODE_LEN \<and> [RED, RED, RED, RED] \<notin> set all_possible_solutions \<and>
   fst (solve [RED, RED, RED, RED]) = None \<and>
   last (printed (snd (solve [RED, RED, RED, RED]))) = Failure_line"
proof -
  have len: "length [RED, RED, RED, RED] \<le> CODE_LEN" by (simp add: CODE_LEN_def)
  have inv: "[RED, RED, RED, RED] \<notin> set all_possible_solutions"
    by (simp add: set_all_possible_solutions)
  from solve_invalid_answer [OF len inv] len inv show ?thesis by simp
qed

end
